theory Spec2Isabelle
  imports Complex_Main "HOL-Library.Sublist" "HOL-Library.Multiset"
begin

section \<open>Python values used by \<open>memote/support/thermodynamics.py\<close>\<close>

text \<open>
  Exceptions are values. Every exception of this datatype is a subclass of Python's
  \<open>Exception\<close>, so every one of them is caught by \<open>except Exception\<close>.
  \<open>ExternalError\<close> stands for whatever the eQuilibrator API raises, \<open>TypeError\<close> for
  what Python raises when an object is not of the kind the code takes it for.
\<close>

datatype py_exception = ValueError | IndexError | TypeError | ExternalError string

text \<open>
  A Python float as the reversibility index has it: a finite number, an infinity or
  not-a-number. Only the comparison \<open>ln_RI < lngamma\<close> is used, with an integer
  \<open>lngamma\<close>; a comparison with not-a-number is false.
\<close>

datatype py_float = Finite real | PosInf | NegInf | NaN

fun float_lt :: "py_float \<Rightarrow> int \<Rightarrow> bool" where
  "float_lt (Finite x) n = (x < of_int n)"
| "float_lt PosInf n = False"
| "float_lt NegInf n = True"
| "float_lt NaN n = False"

subsection \<open>\<open>str.replace\<close>, \<open>str.lstrip\<close>, \<open>int\<close>\<close>

text \<open>
  \<open>s.replace(old, new)\<close> replaces the non-overlapping occurrences of \<open>old\<close> from left
  to right. With an empty \<open>old\<close> Python puts \<open>new\<close> before every character and at the
  end.
\<close>

function replace_nonempty :: "string \<Rightarrow> string \<Rightarrow> string \<Rightarrow> string" where
  "replace_nonempty old new [] = []"
| "replace_nonempty old new (c # cs) =
     (if old \<noteq> [] \<and> take (length old) (c # cs) = old
      then new @ replace_nonempty old new (drop (length old) (c # cs))
      else c # replace_nonempty old new cs)"
  by pat_completeness auto
termination
  by (relation "measure (\<lambda>(old, new, s). length s)") (auto simp: neq_Nil_conv)

definition replace :: "string \<Rightarrow> string \<Rightarrow> string \<Rightarrow> string" where
  "replace s old new =
     (if old = [] then new @ concat (map (\<lambda>c. c # new) s)
      else replace_nonempty old new s)"

text \<open>\<open>x.lstrip('C')\<close> drops the leading run of the character \<open>C\<close>.\<close>

definition lstrip_C :: "string \<Rightarrow> string" where
  "lstrip_C x = dropWhile (\<lambda>c. c = CHR ''C'') x"

text \<open>
  \<open>int(s)\<close> on a string, Python 3, for the characters a \<open>char\<close> holds: white space is
  stripped on both sides (tab, line feed, vertical tab, form feed, carriage return,
  the separators 28 to 31 and space), one sign may follow, then decimal digits, where
  a single underscore may stand between two digits. Anything else is a
  \<open>ValueError\<close>. Digits beyond ASCII and the bound that Python 3.11 sets on the
  number of digits are left out.
\<close>

definition is_space :: "char \<Rightarrow> bool" where
  "is_space c = (let n = (of_char c :: nat) in (9 \<le> n \<and> n \<le> 13) \<or> (28 \<le> n \<and> n \<le> 32))"

definition is_digit :: "char \<Rightarrow> bool" where
  "is_digit c = (let n = (of_char c :: nat) in 48 \<le> n \<and> n \<le> 57)"

definition digit_value :: "char \<Rightarrow> int" where
  "digit_value c = int (of_char c) - 48"

definition strip :: "string \<Rightarrow> string" where
  "strip s = rev (dropWhile is_space (rev (dropWhile is_space s)))"

fun parse_digits :: "int \<Rightarrow> string \<Rightarrow> int option" where
  "parse_digits acc [] = Some acc"
| "parse_digits acc (c # cs) =
     (if is_digit c then parse_digits (10 * acc + digit_value c) cs
      else if c = CHR ''_'' \<and> cs \<noteq> [] \<and> is_digit (hd cs) then parse_digits acc cs
      else None)"

definition parse_decimal :: "string \<Rightarrow> int option" where
  "parse_decimal ds =
     (case ds of [] \<Rightarrow> None
      | d # _ \<Rightarrow> if is_digit d then parse_digits 0 ds else None)"

definition py_int :: "string \<Rightarrow> py_exception + int" where
  "py_int s =
     (case strip s of
        [] \<Rightarrow> Inl ValueError
      | c # cs \<Rightarrow>
          (case (if c = CHR ''-'' then parse_decimal cs
                 else if c = CHR ''+'' then parse_decimal cs
                 else parse_decimal (c # cs)) of
             None \<Rightarrow> Inl ValueError
           | Some n \<Rightarrow> Inr (if c = CHR ''-'' then - n else n)))"

section \<open>\<open>smallest_compound_ID\<close>\<close>

text \<open>
  The list comprehension keeps the entries in which the character \<open>C\<close> occurs.
  \<open>list.sort(key=...)\<close> computes the key of every kept entry, in order, before it
  compares any two: the first key that raises ends the call. The sort is stable.
\<close>

definition has_C :: "string \<Rightarrow> bool" where
  "has_C x = (CHR ''C'' \<in> set x)"

fun sort_keys :: "string list \<Rightarrow> py_exception + (int \<times> string) list" where
  "sort_keys [] = Inr []"
| "sort_keys (x # xs) =
     (case py_int (lstrip_C x) of
        Inl e \<Rightarrow> Inl e
      | Inr k \<Rightarrow> (case sort_keys xs of Inl e \<Rightarrow> Inl e | Inr ks \<Rightarrow> Inr ((k, x) # ks)))"

definition smallest_compound_ID :: "string list \<Rightarrow> py_exception + string list" where
  "smallest_compound_ID kegg_ann_list =
     (let only_cIDs = filter has_C kegg_ann_list in
      case sort_keys only_cIDs of
        Inl e \<Rightarrow> Inl e
      | Inr keyed \<Rightarrow> Inr (map snd (sort_key fst keyed)))"

section \<open>The metabolic model and the eQuilibrator API\<close>

text \<open>
  What the module reads of a \<open>cobra.Metabolite\<close> and of a \<open>cobra.Reaction\<close>. The
  \<open>annotation\<close> dictionary is a list of key and value pairs, and \<open>annotation.get(k)\<close>
  is \<open>map_of (annotation met) k\<close>. An annotation value is a string, a list of strings
  or anything else. A metabolite's \<open>name\<close> may be \<open>None\<close>. The attribute \<open>id\<close> is
  \<open>met_id\<close> here, and \<open>rxn_id\<close> tells two reactions of a model apart. \<open>reaction\<close> is
  the reaction string that the property \<open>rxn.reaction\<close> gives, and \<open>metabolites\<close> the
  keys of the dictionary \<open>rxn.metabolites\<close> in iteration order.
\<close>

datatype annotation_value = AnnStr string | AnnList "string list" | AnnOther

record cobra_metabolite =
  met_id :: string
  name :: "string option"
  annotation :: "(string \<times> annotation_value) list"

record cobra_reaction =
  rxn_id :: string
  reaction :: string
  metabolites :: "cobra_metabolite list"
  reversibility :: bool

text \<open>
  The external collaborators, as parameters. \<open>match\<close> is
  \<open>COMPOUND_MATCHER.match(name)\<close> followed by the column \<open>df['CID']\<close>;
  \<open>parse_formula\<close> is \<open>Reaction.parse_formula\<close>, and \<open>'q\<close> is the type of the parsed
  reaction it returns; the other two are that object's methods. Each of them may
  raise.
\<close>

record 'q equilibrator_api =
  match :: "string \<Rightarrow> py_exception + string list"
  parse_formula :: "string \<Rightarrow> py_exception + 'q"
  check_full_reaction_balancing :: "'q \<Rightarrow> py_exception + bool"
  reversibility_index :: "'q \<Rightarrow> py_exception + py_float"

section \<open>\<open>get_equilibrator_rxn_string\<close>\<close>

text \<open>
  The last two branches of the loop body: a metabolite with a falsy name is passed
  over; otherwise the name is looked up, \<open>.iloc[0]\<close> takes the first compound id (an
  \<open>IndexError\<close> when there is none), and \<open>except Exception: pass\<close> drops whatever
  was raised.
\<close>

definition match_by_name :: "'q equilibrator_api \<Rightarrow> cobra_metabolite \<Rightarrow> string \<Rightarrow> string" where
  "match_by_name api met kegg_rxn =
     (case name met of
        None \<Rightarrow> kegg_rxn
      | Some n \<Rightarrow>
          if n = [] then kegg_rxn
          else (case match api n of
                  Inl e \<Rightarrow> kegg_rxn
                | Inr cids \<Rightarrow>
                    (case cids of
                       [] \<Rightarrow> kegg_rxn
                     | kegg_match_id # _ \<Rightarrow> replace kegg_rxn (met_id met) kegg_match_id)))"

text \<open>
  The loop body. \<open>smallest_compound_ID(kegg_ann_id)[0]\<close> is outside any \<open>try\<close>: what
  it raises leaves the function.
\<close>

definition map_metabolite ::
  "'q equilibrator_api \<Rightarrow> cobra_metabolite \<Rightarrow> string \<Rightarrow> py_exception + string" where
  "map_metabolite api met kegg_rxn =
     (case map_of (annotation met) ''kegg.compound'' of
        Some (AnnStr kegg_ann_id) \<Rightarrow>
          if has_C kegg_ann_id then Inr (replace kegg_rxn (met_id met) kegg_ann_id)
          else Inr (match_by_name api met kegg_rxn)
      | Some (AnnList kegg_ann_id) \<Rightarrow>
          if list_ex has_C kegg_ann_id
          then (case smallest_compound_ID kegg_ann_id of
                  Inl e \<Rightarrow> Inl e
                | Inr only_cIDs \<Rightarrow>
                    (case only_cIDs of
                       [] \<Rightarrow> Inl IndexError
                     | smallest # _ \<Rightarrow> Inr (replace kegg_rxn (met_id met) smallest)))
          else Inr (match_by_name api met kegg_rxn)
      | _ \<Rightarrow> Inr (match_by_name api met kegg_rxn))"

fun map_metabolites ::
  "'q equilibrator_api \<Rightarrow> cobra_metabolite list \<Rightarrow> string \<Rightarrow> py_exception + string" where
  "map_metabolites api [] kegg_rxn = Inr kegg_rxn"
| "map_metabolites api (met # mets) kegg_rxn =
     (case map_metabolite api met kegg_rxn of
        Inl e \<Rightarrow> Inl e
      | Inr kegg_rxn' \<Rightarrow> map_metabolites api mets kegg_rxn')"

definition get_equilibrator_rxn_string ::
  "'q equilibrator_api \<Rightarrow> cobra_reaction \<Rightarrow> py_exception + string" where
  "get_equilibrator_rxn_string api rxn =
     (case map_metabolites api (metabolites rxn) (reaction rxn) of
        Inl e \<Rightarrow> Inl e
      | Inr kegg_rxn \<Rightarrow> Inr (replace (replace kegg_rxn ''-->'' ''->'') ''<--'' ''<-''))"

section \<open>\<open>find_incorrect_thermodynamic_reversibility\<close>\<close>

text \<open>The four lists the function builds, and the body of its loop.\<close>

record buckets =
  incorrect_reversibility :: "cobra_reaction list"
  incomplete_mapping :: "cobra_reaction list"
  problematic_calculation :: "cobra_reaction list"
  unbalanced :: "cobra_reaction list"

definition parse_mapped ::
  "'q equilibrator_api \<Rightarrow> cobra_reaction \<Rightarrow> py_exception + 'q" where
  "parse_mapped api rxn =
     (case get_equilibrator_rxn_string api rxn of
        Inl e \<Rightarrow> Inl e
      | Inr s \<Rightarrow> parse_formula api s)"

definition check_reaction ::
  "'q equilibrator_api \<Rightarrow> int \<Rightarrow> cobra_reaction \<Rightarrow> buckets \<Rightarrow> py_exception + buckets" where
  "check_reaction api lngamma rxn b =
     (case parse_mapped api rxn of
        Inl e \<Rightarrow> Inr (b\<lparr>incomplete_mapping := incomplete_mapping b @ [rxn]\<rparr>)
      | Inr eq_rxn \<Rightarrow>
          (case check_full_reaction_balancing api eq_rxn of
             Inl e \<Rightarrow> Inl e
           | Inr balanced \<Rightarrow>
               if balanced
               then (case reversibility_index api eq_rxn of
                       Inl e \<Rightarrow>
                         Inr (b\<lparr>problematic_calculation := problematic_calculation b @ [rxn]\<rparr>)
                     | Inr ln_RI \<Rightarrow>
                         if float_lt ln_RI lngamma \<noteq> reversibility rxn
                         then Inr (b\<lparr>incorrect_reversibility :=
                                         incorrect_reversibility b @ [rxn]\<rparr>)
                         else Inr b)
               else Inr (b\<lparr>unbalanced := unbalanced b @ [rxn]\<rparr>)))"

fun check_reactions ::
  "'q equilibrator_api \<Rightarrow> int \<Rightarrow> cobra_reaction list \<Rightarrow> buckets \<Rightarrow> py_exception + buckets" where
  "check_reactions api lngamma [] b = Inr b"
| "check_reactions api lngamma (rxn # rxns) b =
     (case check_reaction api lngamma rxn b of
        Inl e \<Rightarrow> Inl e
      | Inr b' \<Rightarrow> check_reactions api lngamma rxns b')"

definition find_incorrect_thermodynamic_reversibility ::
  "'q equilibrator_api \<Rightarrow> cobra_reaction list \<Rightarrow> int \<Rightarrow>
     py_exception +
     (cobra_reaction list \<times> cobra_reaction list \<times> cobra_reaction list \<times> cobra_reaction list)" where
  "find_incorrect_thermodynamic_reversibility api reactions lngamma =
     (case check_reactions api lngamma reactions
             \<lparr>incorrect_reversibility = [], incomplete_mapping = [],
              problematic_calculation = [], unbalanced = []\<rparr> of
        Inl e \<Rightarrow> Inl e
      | Inr b \<Rightarrow>
          Inr (incorrect_reversibility b, incomplete_mapping b,
               problematic_calculation b, unbalanced b))"

section \<open>The functions on a store of Python objects\<close>

text \<open>
  A second embedding of the three functions, for the properties that are about
  Python objects rather than about values: which objects a call changes. The store
  is the list of the objects allocated so far, and a reference is a position in it.
  A new object is put at the end; \<open>list.sort\<close> and \<open>list.append\<close> change the object at
  a reference in place. Strings, numbers and booleans are values, not objects: a
  string is never changed, \<open>str.replace\<close> returns another one. A list annotation is
  a reference to a list of strings, so that two annotations may share one list; a
  reaction refers to its metabolites, and a list of reactions to its reactions.
  The attributes and the annotation dictionary are part of their object; no
  statement of the module assigns to one. An exception leaves the store as the
  statements before it made it. The collaborators are given strings and parsed
  reactions only, never an object of the store.
\<close>

type_synonym ref = nat

datatype annotation_ref = RefStr string | RefList ref | RefOther

datatype py_object =
    StrList "string list"
  | RxnList "ref list"
  | Metabolite string "string option" "(string \<times> annotation_ref) list"
  | Reaction string string "ref list" bool

type_synonym store = "py_object list"

text \<open>
  Reading a reference, allocating an object, assigning to a reference. A reference
  that holds no object of the expected kind makes the reading statement raise.
\<close>

definition lookup :: "store \<Rightarrow> ref \<Rightarrow> py_object option" where
  "lookup st r = (if r < length st then Some (st ! r) else None)"

definition alloc :: "py_object \<Rightarrow> store \<Rightarrow> ref \<times> store" where
  "alloc obj st = (length st, st @ [obj])"

definition assign :: "ref \<Rightarrow> py_object \<Rightarrow> store \<Rightarrow> store" where
  "assign r obj st = st[r := obj]"

text \<open>
  \<open>smallest_compound_ID\<close>: the list comprehension allocates \<open>only_cIDs\<close>, and
  \<open>only_cIDs.sort\<close> sorts that object in place (it stays as it was when a key
  raises); the reference to it is returned.
\<close>

definition smallest_compound_ID_s :: "ref \<Rightarrow> store \<Rightarrow> (py_exception + ref) \<times> store" where
  "smallest_compound_ID_s kegg_ann_list st =
     (case lookup st kegg_ann_list of
        Some (StrList xs) \<Rightarrow>
          (case alloc (StrList (filter has_C xs)) st of
             (only_cIDs, st1) \<Rightarrow>
               (case lookup st1 only_cIDs of
                  Some (StrList ys) \<Rightarrow>
                    (case sort_keys ys of
                       Inl e \<Rightarrow> (Inl e, st1)
                     | Inr keyed \<Rightarrow>
                         (Inr only_cIDs,
                          assign only_cIDs (StrList (map snd (sort_key fst keyed))) st1))
                | _ \<Rightarrow> (Inl TypeError, st1)))
      | _ \<Rightarrow> (Inl TypeError, st))"

text \<open>
  \<open>get_equilibrator_rxn_string\<close>: it reads the reaction, its metabolites and their
  annotations, and calls \<open>smallest_compound_ID\<close> on the list an annotation refers to.
  The branches on the metabolite's name touch no object.
\<close>

definition name_branch ::
  "'q equilibrator_api \<Rightarrow> string \<Rightarrow> string option \<Rightarrow> string \<Rightarrow> string" where
  "name_branch api mid nm kegg_rxn =
     match_by_name api \<lparr>met_id = mid, name = nm, annotation = []\<rparr> kegg_rxn"

definition map_metabolite_s ::
  "'q equilibrator_api \<Rightarrow> ref \<Rightarrow> string \<Rightarrow> store \<Rightarrow> (py_exception + string) \<times> store" where
  "map_metabolite_s api met kegg_rxn st =
     (case lookup st met of
        Some (Metabolite mid nm ann) \<Rightarrow>
          (case map_of ann ''kegg.compound'' of
             Some (RefStr kegg_ann_id) \<Rightarrow>
               if has_C kegg_ann_id then (Inr (replace kegg_rxn mid kegg_ann_id), st)
               else (Inr (name_branch api mid nm kegg_rxn), st)
           | Some (RefList kegg_ann_id) \<Rightarrow>
               (case lookup st kegg_ann_id of
                  Some (StrList xs) \<Rightarrow>
                    if list_ex has_C xs
                    then (case smallest_compound_ID_s kegg_ann_id st of
                            (Inl e, st1) \<Rightarrow> (Inl e, st1)
                          | (Inr only_cIDs, st1) \<Rightarrow>
                              (case lookup st1 only_cIDs of
                                 Some (StrList (smallest # _)) \<Rightarrow>
                                   (Inr (replace kegg_rxn mid smallest), st1)
                               | Some (StrList []) \<Rightarrow> (Inl IndexError, st1)
                               | _ \<Rightarrow> (Inl TypeError, st1)))
                    else (Inr (name_branch api mid nm kegg_rxn), st)
                | _ \<Rightarrow> (Inl TypeError, st))
           | _ \<Rightarrow> (Inr (name_branch api mid nm kegg_rxn), st))
      | _ \<Rightarrow> (Inl TypeError, st))"

fun map_metabolites_s ::
  "'q equilibrator_api \<Rightarrow> ref list \<Rightarrow> string \<Rightarrow> store \<Rightarrow> (py_exception + string) \<times> store" where
  "map_metabolites_s api [] kegg_rxn st = (Inr kegg_rxn, st)"
| "map_metabolites_s api (met # mets) kegg_rxn st =
     (case map_metabolite_s api met kegg_rxn st of
        (Inl e, st1) \<Rightarrow> (Inl e, st1)
      | (Inr kegg_rxn', st1) \<Rightarrow> map_metabolites_s api mets kegg_rxn' st1)"

definition get_equilibrator_rxn_string_s ::
  "'q equilibrator_api \<Rightarrow> ref \<Rightarrow> store \<Rightarrow> (py_exception + string) \<times> store" where
  "get_equilibrator_rxn_string_s api rxn st =
     (case lookup st rxn of
        Some (Reaction rid rstr mets reversible) \<Rightarrow>
          (case map_metabolites_s api mets rstr st of
             (Inl e, st1) \<Rightarrow> (Inl e, st1)
           | (Inr kegg_rxn, st1) \<Rightarrow>
               (Inr (replace (replace kegg_rxn ''-->'' ''->'') ''<--'' ''<-''), st1))
      | _ \<Rightarrow> (Inl TypeError, st))"

text \<open>
  \<open>find_incorrect_thermodynamic_reversibility\<close>: four lists are allocated, in the
  order of the source; \<open>append\<close> changes one of them in place; the references to
  the four lists are returned.
\<close>

definition append_rxn :: "ref \<Rightarrow> ref \<Rightarrow> store \<Rightarrow> store" where
  "append_rxn l rxn st =
     (case lookup st l of
        Some (RxnList xs) \<Rightarrow> assign l (RxnList (xs @ [rxn])) st
      | _ \<Rightarrow> st)"

record bucket_refs =
  incorrect_reversibility_ref :: ref
  incomplete_mapping_ref :: ref
  problematic_calculation_ref :: ref
  unbalanced_ref :: ref

definition check_reaction_s ::
  "'q equilibrator_api \<Rightarrow> int \<Rightarrow> bucket_refs \<Rightarrow> ref \<Rightarrow> store \<Rightarrow> (py_exception + unit) \<times> store" where
  "check_reaction_s api lngamma b rxn st =
     (case get_equilibrator_rxn_string_s api rxn st of
        (Inl e, st1) \<Rightarrow> (Inr (), append_rxn (incomplete_mapping_ref b) rxn st1)
      | (Inr s, st1) \<Rightarrow>
          (case parse_formula api s of
             Inl e \<Rightarrow> (Inr (), append_rxn (incomplete_mapping_ref b) rxn st1)
           | Inr eq_rxn \<Rightarrow>
               (case check_full_reaction_balancing api eq_rxn of
                  Inl e \<Rightarrow> (Inl e, st1)
                | Inr balanced \<Rightarrow>
                    if balanced
                    then (case reversibility_index api eq_rxn of
                            Inl e \<Rightarrow> (Inr (), append_rxn (problematic_calculation_ref b) rxn st1)
                          | Inr ln_RI \<Rightarrow>
                              (case lookup st1 rxn of
                                 Some (Reaction rid rstr mets reversible) \<Rightarrow>
                                   if float_lt ln_RI lngamma \<noteq> reversible
                                   then (Inr (), append_rxn (incorrect_reversibility_ref b) rxn st1)
                                   else (Inr (), st1)
                               | _ \<Rightarrow> (Inl TypeError, st1)))
                    else (Inr (), append_rxn (unbalanced_ref b) rxn st1))))"

fun check_reactions_s ::
  "'q equilibrator_api \<Rightarrow> int \<Rightarrow> bucket_refs \<Rightarrow> ref list \<Rightarrow> store \<Rightarrow> (py_exception + unit) \<times> store" where
  "check_reactions_s api lngamma b [] st = (Inr (), st)"
| "check_reactions_s api lngamma b (rxn # rxns) st =
     (case check_reaction_s api lngamma b rxn st of
        (Inl e, st1) \<Rightarrow> (Inl e, st1)
      | (Inr u, st1) \<Rightarrow> check_reactions_s api lngamma b rxns st1)"

definition find_incorrect_thermodynamic_reversibility_s ::
  "'q equilibrator_api \<Rightarrow> ref \<Rightarrow> int \<Rightarrow> store \<Rightarrow>
     (py_exception + (ref \<times> ref \<times> ref \<times> ref)) \<times> store" where
  "find_incorrect_thermodynamic_reversibility_s api reactions lngamma st =
     (case alloc (RxnList []) st of (incomplete_mapping_r, st1) \<Rightarrow>
      case alloc (RxnList []) st1 of (problematic_calculation_r, st2) \<Rightarrow>
      case alloc (RxnList []) st2 of (incorrect_reversibility_r, st3) \<Rightarrow>
      case alloc (RxnList []) st3 of (unbalanced_r, st4) \<Rightarrow>
        (case lookup st4 reactions of
           Some (RxnList rxns) \<Rightarrow>
             (case check_reactions_s api lngamma
                     \<lparr>incorrect_reversibility_ref = incorrect_reversibility_r,
                      incomplete_mapping_ref = incomplete_mapping_r,
                      problematic_calculation_ref = problematic_calculation_r,
                      unbalanced_ref = unbalanced_r\<rparr> rxns st4 of
                (Inl e, st5) \<Rightarrow> (Inl e, st5)
              | (Inr u, st5) \<Rightarrow>
                  (Inr (incorrect_reversibility_r, incomplete_mapping_r,
                        problematic_calculation_r, unbalanced_r), st5))
         | _ \<Rightarrow> (Inl TypeError, st4)))"

section \<open>Notions used to state the properties\<close>

text \<open>
  The list a reaction is appended to by one run of the loop body, read off the body's
  control flow: \<open>None\<close> when nothing is appended, \<open>Inl\<close> when the body raises.
\<close>

datatype bucket = Incorrect | Incomplete | Problematic | Unbalanced

definition outcome ::
  "'q equilibrator_api \<Rightarrow> int \<Rightarrow> cobra_reaction \<Rightarrow> py_exception + bucket option" where
  "outcome api lngamma rxn =
     (case parse_mapped api rxn of
        Inl e \<Rightarrow> Inr (Some Incomplete)
      | Inr eq_rxn \<Rightarrow>
          (case check_full_reaction_balancing api eq_rxn of
             Inl e \<Rightarrow> Inl e
           | Inr balanced \<Rightarrow>
               if balanced
               then (case reversibility_index api eq_rxn of
                       Inl e \<Rightarrow> Inr (Some Problematic)
                     | Inr ln_RI \<Rightarrow>
                         if float_lt ln_RI lngamma \<noteq> reversibility rxn
                         then Inr (Some Incorrect) else Inr None)
               else Inr (Some Unbalanced)))"

definition goes_to :: "'q equilibrator_api \<Rightarrow> int \<Rightarrow> bucket \<Rightarrow> cobra_reaction \<Rightarrow> bool" where
  "goes_to api lngamma k rxn = (outcome api lngamma rxn = Inr (Some k))"

text \<open>
  The integer an entry is sorted by, and whether \<open>int\<close> accepts the entry once the
  leading \<open>C\<close>s are gone.
\<close>

definition kegg_number :: "string \<Rightarrow> int" where
  "kegg_number x = (case py_int (lstrip_C x) of Inl e \<Rightarrow> 0 | Inr k \<Rightarrow> k)"

definition has_number :: "string \<Rightarrow> bool" where
  "has_number x = (\<not> isl (py_int (lstrip_C x)))"

text \<open>
  A metabolite on which the loop body of \<open>get_equilibrator_rxn_string\<close> raises: its
  annotation is a list in which an entry with a \<open>C\<close> has no integer behind the leading
  \<open>C\<close>s.
\<close>

definition raises_on :: "cobra_metabolite \<Rightarrow> bool" where
  "raises_on met =
     (case map_of (annotation met) ''kegg.compound'' of
        Some (AnnList l) \<Rightarrow> \<not> list_all has_number (filter has_C l)
      | _ \<Rightarrow> False)"

text \<open>
  The three rules by which a metabolite gets a KEGG compound identifier, in the words
  of the function's documentation: the annotation when it is a string with a \<open>C\<close>;
  else the smallest compound identifier of the annotation when it is a list with an
  entry with a \<open>C\<close> (the first of the entries with the least number); else the first
  match of the \<open>CompoundMatcher\<close> on the metabolite's name, when it has a name and
  the lookup gives one. \<open>replace_by_rule\<close> replaces the metabolite's identifier by the
  first rule that applies and leaves the string alone when none does; \<open>arrows\<close> is
  the rewriting of the arrows that ends the function.
\<close>

definition string_rule :: "cobra_metabolite \<Rightarrow> string option" where
  "string_rule met =
     (case map_of (annotation met) ''kegg.compound'' of
        Some (AnnStr a) \<Rightarrow> if has_C a then Some a else None
      | _ \<Rightarrow> None)"

definition list_rule :: "cobra_metabolite \<Rightarrow> string option" where
  "list_rule met =
     (case map_of (annotation met) ''kegg.compound'' of
        Some (AnnList l) \<Rightarrow>
          if list_ex has_C l then Some (arg_min_list kegg_number (filter has_C l)) else None
      | _ \<Rightarrow> None)"

definition name_rule :: "'q equilibrator_api \<Rightarrow> cobra_metabolite \<Rightarrow> string option" where
  "name_rule api met =
     (case name met of
        None \<Rightarrow> None
      | Some n \<Rightarrow>
          if n = [] then None
          else (case match api n of Inr (k # _) \<Rightarrow> Some k | _ \<Rightarrow> None))"

definition first_applicable_rule :: "'q equilibrator_api \<Rightarrow> cobra_metabolite \<Rightarrow> string option" where
  "first_applicable_rule api met =
     (case string_rule met of
        Some k \<Rightarrow> Some k
      | None \<Rightarrow> (case list_rule met of Some k \<Rightarrow> Some k | None \<Rightarrow> name_rule api met))"

definition replace_by_rule :: "'q equilibrator_api \<Rightarrow> cobra_metabolite \<Rightarrow> string \<Rightarrow> string" where
  "replace_by_rule api met kegg_rxn =
     (case first_applicable_rule api met of
        None \<Rightarrow> kegg_rxn
      | Some k \<Rightarrow> replace kegg_rxn (met_id met) k)"


text \<open>The four result lists were allocated after the store \<open>st0\<close> was taken.\<close>

definition fresh_refs :: "store \<Rightarrow> bucket_refs \<Rightarrow> bool" where
  "fresh_refs st0 b \<longleftrightarrow>
     length st0 \<le> incorrect_reversibility_ref b \<and> length st0 \<le> incomplete_mapping_ref b \<and>
     length st0 \<le> problematic_calculation_ref b \<and> length st0 \<le> unbalanced_ref b"

text \<open>
  What the objects of a store stand for. A reference to a metabolite stands for the
  metabolite with the same identifier and name whose annotation holds, key by key,
  the strings and the lists that the object's annotation holds or refers to; a
  reference to a reaction stands for the reaction with the same attributes whose
  metabolites are those its references stand for; and a reference to a list of
  reactions for the list of the reactions.
\<close>

fun value_rel :: "store \<Rightarrow> annotation_ref \<Rightarrow> annotation_value \<Rightarrow> bool" where
  "value_rel st (RefStr s) (AnnStr s') = (s = s')"
| "value_rel st (RefList l) (AnnList xs) = (lookup st l = Some (StrList xs))"
| "value_rel st RefOther AnnOther = True"
| "value_rel st _ _ = False"

definition item_rel ::
  "store \<Rightarrow> string \<times> annotation_ref \<Rightarrow> string \<times> annotation_value \<Rightarrow> bool" where
  "item_rel st kv kv' = (fst kv = fst kv' \<and> value_rel st (snd kv) (snd kv'))"

definition metabolite_rel :: "store \<Rightarrow> ref \<Rightarrow> cobra_metabolite \<Rightarrow> bool" where
  "metabolite_rel st r met =
     (case lookup st r of
        Some (Metabolite mid nm ann) \<Rightarrow>
          mid = met_id met \<and> nm = name met \<and> list_all2 (item_rel st) ann (annotation met)
      | _ \<Rightarrow> False)"

definition reaction_rel :: "store \<Rightarrow> ref \<Rightarrow> cobra_reaction \<Rightarrow> bool" where
  "reaction_rel st r rxn =
     (case lookup st r of
        Some (Reaction rid rstr mets reversible) \<Rightarrow>
          rid = rxn_id rxn \<and> rstr = reaction rxn \<and> reversible = reversibility rxn \<and>
          list_all2 (metabolite_rel st) mets (metabolites rxn)
      | _ \<Rightarrow> False)"

definition reaction_list_rel :: "store \<Rightarrow> ref \<Rightarrow> cobra_reaction list \<Rightarrow> bool" where
  "reaction_list_rel st r rxns =
     (case lookup st r of
        Some (RxnList refs) \<Rightarrow> list_all2 (reaction_rel st) refs rxns
      | _ \<Rightarrow> False)"

text \<open>
  The four result lists of a run in progress, in the store \<open>st\<close>, stand for the four
  lists of the functional run; the reactions in them are read in the store \<open>st0\<close> the
  run started from.
\<close>

definition bucket_rel :: "store \<Rightarrow> store \<Rightarrow> ref \<Rightarrow> cobra_reaction list \<Rightarrow> bool" where
  "bucket_rel st0 st l rxns =
     (case lookup st l of
        Some (RxnList refs) \<Rightarrow> list_all2 (reaction_rel st0) refs rxns
      | _ \<Rightarrow> False)"

definition buckets_rel :: "store \<Rightarrow> store \<Rightarrow> bucket_refs \<Rightarrow> buckets \<Rightarrow> bool" where
  "buckets_rel st0 st b B \<longleftrightarrow>
     bucket_rel st0 st (incorrect_reversibility_ref b) (incorrect_reversibility B) \<and>
     bucket_rel st0 st (incomplete_mapping_ref b) (incomplete_mapping B) \<and>
     bucket_rel st0 st (problematic_calculation_ref b) (problematic_calculation B) \<and>
     bucket_rel st0 st (unbalanced_ref b) (unbalanced B)"

definition distinct_refs :: "bucket_refs \<Rightarrow> bool" where
  "distinct_refs b =
     distinct [incorrect_reversibility_ref b, incomplete_mapping_ref b,
               problematic_calculation_ref b, unbalanced_ref b]"

section \<open>A small model and a stand-in for the eQuilibrator API\<close>

text \<open>
  Metabolites with BiGG identifiers, a few reactions over them, and an API that
  parses a formula when no lower-case letter is left in it. Water has no annotation
  and is found by its name; NADH has neither an annotation nor a name.
\<close>

definition kegg :: "string \<Rightarrow> (string \<times> annotation_value) list" where
  "kegg c = [(''kegg.compound'', AnnStr c)]"

definition pyr_c :: cobra_metabolite where
  "pyr_c = \<lparr>met_id = ''pyr_c'', name = Some ''Pyruvate'', annotation = kegg ''C00022''\<rparr>"
definition lac_c :: cobra_metabolite where
  "lac_c = \<lparr>met_id = ''lac_c'', name = Some ''Lactate'',
            annotation = [(''kegg.compound'', AnnList [''C01432'', ''D00111'', ''C00186''])]\<rparr>"
definition atp_c :: cobra_metabolite where
  "atp_c = \<lparr>met_id = ''atp_c'', name = Some ''ATP'', annotation = kegg ''C00002''\<rparr>"
definition adp_c :: cobra_metabolite where
  "adp_c = \<lparr>met_id = ''adp_c'', name = Some ''ADP'', annotation = kegg ''C00008''\<rparr>"
definition pi_c :: cobra_metabolite where
  "pi_c = \<lparr>met_id = ''pi_c'', name = Some ''Phosphate'', annotation = kegg ''C00009''\<rparr>"
definition ppi_c :: cobra_metabolite where
  "ppi_c = \<lparr>met_id = ''ppi_c'', name = Some ''Diphosphate'', annotation = kegg ''C00013''\<rparr>"
definition h2o_c :: cobra_metabolite where
  "h2o_c = \<lparr>met_id = ''h2o_c'', name = Some ''H2O'', annotation = []\<rparr>"
definition h_c :: cobra_metabolite where
  "h_c = \<lparr>met_id = ''h_c'', name = Some ''H+'', annotation = kegg ''C00080''\<rparr>"
definition nadh_c :: cobra_metabolite where
  "nadh_c = \<lparr>met_id = ''nadh_c'', name = Some '''', annotation = []\<rparr>"
definition nad_c :: cobra_metabolite where
  "nad_c = \<lparr>met_id = ''nad_c'', name = Some ''NAD'', annotation = kegg ''C00003''\<rparr>"
definition glc_c :: cobra_metabolite where
  "glc_c = \<lparr>met_id = ''glc_c'', name = Some ''D-Glucose'',
            annotation = [(''kegg.compound'', AnnList [''CHEBI:17234''])]\<rparr>"

definition LDH :: cobra_reaction where
  "LDH = \<lparr>rxn_id = ''LDH'', reaction = ''pyr_c <=> lac_c'',
          metabolites = [pyr_c, lac_c], reversibility = True\<rparr>"
definition ATPM :: cobra_reaction where
  "ATPM = \<lparr>rxn_id = ''ATPM'', reaction = ''atp_c --> adp_c'',
           metabolites = [atp_c, adp_c], reversibility = True\<rparr>"
definition PPA :: cobra_reaction where
  "PPA = \<lparr>rxn_id = ''PPA'', reaction = ''ppi_c --> pi_c'',
          metabolites = [ppi_c, pi_c], reversibility = False\<rparr>"
definition HYD :: cobra_reaction where
  "HYD = \<lparr>rxn_id = ''HYD'', reaction = ''h2o_c --> h_c'',
          metabolites = [h2o_c, h_c], reversibility = False\<rparr>"
definition NADH :: cobra_reaction where
  "NADH = \<lparr>rxn_id = ''NADH'', reaction = ''nadh_c + h_c --> nad_c'',
           metabolites = [nadh_c, h_c, nad_c], reversibility = False\<rparr>"
definition GLC :: cobra_reaction where
  "GLC = \<lparr>rxn_id = ''GLC'', reaction = ''glc_c --> pyr_c'',
          metabolites = [glc_c, pyr_c], reversibility = False\<rparr>"

definition is_lower :: "char \<Rightarrow> bool" where
  "is_lower c = (let n = (of_char c :: nat) in 97 \<le> n \<and> n \<le> 122)"

definition example_api :: "string equilibrator_api" where
  "example_api =
     \<lparr>match = (\<lambda>n. if n = ''H2O'' then Inr [''C00001'']
                    else if n = ''NAD'' then Inr []
                    else Inl (ExternalError ''no match'')),
      parse_formula = (\<lambda>s. if list_ex is_lower s then Inl (ExternalError ''unknown compound'')
                            else Inr s),
      check_full_reaction_balancing = (\<lambda>q. Inr (q \<noteq> ''C00013 -> C00009'')),
      reversibility_index = (\<lambda>q. if q = ''C00022 <=> C00186'' then Inr (Finite 1)
                                  else if q = ''C00002 -> C00008'' then Inr (Finite 10)
                                  else Inl (ExternalError ''no estimate''))\<rparr>"

text \<open>
  A second API: it answers as \<open>example_api\<close> does, except for a name and for a formula
  that the reactions above never ask about.
\<close>

definition other_api :: "string equilibrator_api" where
  "other_api =
     example_api
       \<lparr>match := (\<lambda>n. if n = ''Citrate'' then Inr [''C00158''] else match example_api n),
        reversibility_index :=
          (\<lambda>q. if q = ''C00158 -> C00311'' then Inr (Finite 2)
                else reversibility_index example_api q)\<rparr>"

text \<open>
  A store with the lactate dehydrogenase and the ATP maintenance reaction, and at
  reference 7 the list of the two. The list annotation of lactate is the object at
  reference 1.
\<close>

definition example_store :: store where
  "example_store =
     [Metabolite ''pyr_c'' (Some ''Pyruvate'') [(''kegg.compound'', RefStr ''C00022'')],
      StrList [''C01432'', ''D00111'', ''C00186''],
      Metabolite ''lac_c'' (Some ''Lactate'') [(''kegg.compound'', RefList 1)],
      Reaction ''LDH'' ''pyr_c <=> lac_c'' [0, 2] True,
      Metabolite ''atp_c'' (Some ''ATP'') [(''kegg.compound'', RefStr ''C00002'')],
      Metabolite ''adp_c'' (Some ''ADP'') [(''kegg.compound'', RefStr ''C00008'')],
      Reaction ''ATPM'' ''atp_c --> adp_c'' [4, 5] True,
      RxnList [3, 6]]"

section \<open>The classification loop\<close>

lemma check_reaction_outcome:
  "check_reaction api g r b =
     (case outcome api g r of
        Inl e \<Rightarrow> Inl e
      | Inr None \<Rightarrow> Inr b
      | Inr (Some Incorrect) \<Rightarrow> Inr (b\<lparr>incorrect_reversibility := incorrect_reversibility b @ [r]\<rparr>)
      | Inr (Some Incomplete) \<Rightarrow> Inr (b\<lparr>incomplete_mapping := incomplete_mapping b @ [r]\<rparr>)
      | Inr (Some Problematic) \<Rightarrow> Inr (b\<lparr>problematic_calculation := problematic_calculation b @ [r]\<rparr>)
      | Inr (Some Unbalanced) \<Rightarrow> Inr (b\<lparr>unbalanced := unbalanced b @ [r]\<rparr>))"
  by (simp add: check_reaction_def outcome_def split: sum.splits)

lemma check_reactions_filter:
  "check_reactions api g rs b = Inr b' \<Longrightarrow>
     incorrect_reversibility b' = incorrect_reversibility b @ filter (goes_to api g Incorrect) rs \<and>
     incomplete_mapping b' = incomplete_mapping b @ filter (goes_to api g Incomplete) rs \<and>
     problematic_calculation b' = problematic_calculation b @ filter (goes_to api g Problematic) rs \<and>
     unbalanced b' = unbalanced b @ filter (goes_to api g Unbalanced) rs"
proof (induction rs arbitrary: b)
  case Nil
  then show ?case by simp
next
  case (Cons r rs)
  from Cons.prems obtain b1 where
    step: "check_reaction api g r b = Inr b1" and rest: "check_reactions api g rs b1 = Inr b'"
    by (auto split: sum.splits)
  note ih = Cons.IH [OF rest]
  from step show ?case
    unfolding check_reaction_outcome
    using ih
    by (auto simp: goes_to_def split: sum.splits option.splits bucket.splits)
qed

lemma check_reactions_raises:
  "check_reactions api g rs b = Inl e \<Longrightarrow> \<exists>r \<in> set rs. outcome api g r = Inl e"
proof (induction rs arbitrary: b)
  case Nil
  then show ?case by simp
next
  case (Cons r rs)
  show ?case
  proof (cases "check_reaction api g r b")
    case (Inl e')
    with Cons.prems have "e' = e" by simp
    with Inl have "outcome api g r = Inl e"
      unfolding check_reaction_outcome
      by (auto split: sum.splits option.splits bucket.splits)
    then show ?thesis by simp
  next
    case (Inr b1)
    with Cons.prems have "check_reactions api g rs b1 = Inl e" by simp
    from Cons.IH [OF this] show ?thesis by auto
  qed
qed

lemma check_reactions_returns:
  "\<forall>r \<in> set rs. \<not> isl (outcome api g r) \<Longrightarrow> \<exists>b'. check_reactions api g rs b = Inr b'"
  using check_reactions_raises [of api g rs b]
  by (cases "check_reactions api g rs b") (auto simp: isl_def)

lemma find_filter:
  assumes "find_incorrect_thermodynamic_reversibility api rs g = Inr (ir, im, pc, ub)"
  shows "ir = filter (goes_to api g Incorrect) rs"
    and "im = filter (goes_to api g Incomplete) rs"
    and "pc = filter (goes_to api g Problematic) rs"
    and "ub = filter (goes_to api g Unbalanced) rs"
proof -
  from assms obtain b' where
    run: "check_reactions api g rs
            \<lparr>incorrect_reversibility = [], incomplete_mapping = [],
             problematic_calculation = [], unbalanced = []\<rparr> = Inr b'"
    and res: "ir = incorrect_reversibility b'" "im = incomplete_mapping b'"
             "pc = problematic_calculation b'" "ub = unbalanced b'"
    by (auto simp: find_incorrect_thermodynamic_reversibility_def split: sum.splits)
  from check_reactions_filter [OF run] res
  show "ir = filter (goes_to api g Incorrect) rs"
    and "im = filter (goes_to api g Incomplete) rs"
    and "pc = filter (goes_to api g Problematic) rs"
    and "ub = filter (goes_to api g Unbalanced) rs"
    by simp_all
qed

lemma goes_to_exclusive:
  "goes_to api g k r \<Longrightarrow> goes_to api g k' r \<Longrightarrow> k = k'"
  by (simp add: goes_to_def)

lemma parse_mapped_Inr_iff:
  "parse_mapped api rxn = Inr q \<longleftrightarrow>
     (\<exists>s. get_equilibrator_rxn_string api rxn = Inr s \<and> parse_formula api s = Inr q)"
  by (auto simp: parse_mapped_def split: sum.splits)

lemma parse_mapped_Inl_iff:
  "parse_mapped api rxn = Inl e \<longleftrightarrow>
     (get_equilibrator_rxn_string api rxn = Inl e \<or>
      (\<exists>s. get_equilibrator_rxn_string api rxn = Inr s \<and> parse_formula api s = Inl e))"
  by (auto simp: parse_mapped_def split: sum.splits)

lemma goes_to_Incomplete_iff:
  "goes_to api g Incomplete rxn \<longleftrightarrow> isl (parse_mapped api rxn)"
  by (auto simp: goes_to_def outcome_def isl_def split: sum.splits)

lemma goes_to_Unbalanced_iff:
  "goes_to api g Unbalanced rxn \<longleftrightarrow>
     (\<exists>q. parse_mapped api rxn = Inr q \<and> check_full_reaction_balancing api q = Inr False)"
  by (auto simp: goes_to_def outcome_def split: sum.splits)

lemma goes_to_Problematic_iff:
  "goes_to api g Problematic rxn \<longleftrightarrow>
     (\<exists>q. parse_mapped api rxn = Inr q \<and> check_full_reaction_balancing api q = Inr True \<and>
          isl (reversibility_index api q))"
  by (auto simp: goes_to_def outcome_def isl_def split: sum.splits)

lemma goes_to_Incorrect_iff:
  "goes_to api g Incorrect rxn \<longleftrightarrow>
     (\<exists>q ln_RI. parse_mapped api rxn = Inr q \<and> check_full_reaction_balancing api q = Inr True \<and>
          reversibility_index api q = Inr ln_RI \<and> float_lt ln_RI g \<noteq> reversibility rxn)"
  by (auto simp: goes_to_def outcome_def split: sum.splits)

lemma outcome_None_iff:
  "outcome api g rxn = Inr None \<longleftrightarrow>
     (\<exists>s eq_rxn ln_RI.
        get_equilibrator_rxn_string api rxn = Inr s \<and>
        parse_formula api s = Inr eq_rxn \<and>
        check_full_reaction_balancing api eq_rxn = Inr True \<and>
        reversibility_index api eq_rxn = Inr ln_RI \<and>
        float_lt ln_RI g = reversibility rxn)"
  by (auto simp: outcome_def parse_mapped_def split: sum.splits if_splits)

lemma check_reactions_raises_at:
  "outcome api g r = Inl e \<Longrightarrow> \<exists>e'. check_reactions api g (xs @ r # ys) b = Inl e'"
proof (induction xs arbitrary: b)
  case Nil
  then show ?case by (simp add: check_reaction_outcome)
next
  case (Cons x xs)
  show ?case
  proof (cases "check_reaction api g x b")
    case (Inl e')
    then show ?thesis by simp
  next
    case (Inr b1)
    with Cons.IH [OF Cons.prems, of b1] show ?thesis by simp
  qed
qed

lemma find_returns_outcome:
  assumes "find_incorrect_thermodynamic_reversibility api rs g = Inr res" and "r \<in> set rs"
  shows "\<not> isl (outcome api g r)"
proof
  assume "isl (outcome api g r)"
  then obtain e where e: "outcome api g r = Inl e" by (auto simp: isl_def)
  from assms(2) obtain xs ys where rs: "rs = xs @ r # ys" by (auto simp: in_set_conv_decomp)
  let ?b0 = "\<lparr>incorrect_reversibility = [], incomplete_mapping = [],
              problematic_calculation = [], unbalanced = []\<rparr>"
  from check_reactions_raises_at [OF e, of xs ys ?b0] rs
  obtain e' where "check_reactions api g rs ?b0 = Inl e'" by auto
  then have "find_incorrect_thermodynamic_reversibility api rs g = Inl e'"
    by (simp add: find_incorrect_thermodynamic_reversibility_def)
  with assms(1) show False by simp
qed

lemma outcome_Inl_iff:
  "outcome api g rxn = Inl e \<longleftrightarrow>
     (\<exists>s eq_rxn. get_equilibrator_rxn_string api rxn = Inr s \<and>
        parse_formula api s = Inr eq_rxn \<and>
        check_full_reaction_balancing api eq_rxn = Inl e)"
  by (auto simp: outcome_def parse_mapped_def split: sum.splits if_splits)

lemma find_raises:
  assumes "find_incorrect_thermodynamic_reversibility api rs g = Inl e"
  shows "\<exists>rxn \<in> set rs. \<exists>s eq_rxn. get_equilibrator_rxn_string api rxn = Inr s \<and>
        parse_formula api s = Inr eq_rxn \<and>
        check_full_reaction_balancing api eq_rxn = Inl e"
proof -
  from assms have "check_reactions api g rs
            \<lparr>incorrect_reversibility = [], incomplete_mapping = [],
             problematic_calculation = [], unbalanced = []\<rparr> = Inl e"
    by (auto simp: find_incorrect_thermodynamic_reversibility_def split: sum.splits)
  from check_reactions_raises [OF this] show ?thesis
    by (simp add: outcome_Inl_iff)
qed

lemma find_returns:
  assumes "\<And>rxn s eq_rxn. rxn \<in> set rs \<Longrightarrow> get_equilibrator_rxn_string api rxn = Inr s \<Longrightarrow>
        parse_formula api s = Inr eq_rxn \<Longrightarrow> \<not> isl (check_full_reaction_balancing api eq_rxn)"
  shows "\<exists>ir im pc ub. find_incorrect_thermodynamic_reversibility api rs g = Inr (ir, im, pc, ub)"
proof (cases "find_incorrect_thermodynamic_reversibility api rs g")
  case (Inl e)
  from find_raises [OF Inl] assms show ?thesis by (auto simp: isl_def)
next
  case (Inr res)
  then show ?thesis by (cases res) auto
qed

text \<open>What one run of the loop body appends.\<close>

lemma check_reaction_mapping_fails:
  assumes "isl (get_equilibrator_rxn_string api rxn) \<or>
           (\<exists>s. get_equilibrator_rxn_string api rxn = Inr s \<and> isl (parse_formula api s))"
  shows "check_reaction api lngamma rxn b =
           Inr (b\<lparr>incomplete_mapping := incomplete_mapping b @ [rxn]\<rparr>)"
proof -
  from assms have "isl (parse_mapped api rxn)"
    by (auto simp: parse_mapped_def isl_def split: sum.splits)
  then show ?thesis by (auto simp: check_reaction_def isl_def)
qed

lemma check_reaction_unbalanced:
  assumes "get_equilibrator_rxn_string api rxn = Inr s" and "parse_formula api s = Inr eq_rxn"
    and "check_full_reaction_balancing api eq_rxn = Inr False"
  shows "check_reaction api lngamma rxn b = Inr (b\<lparr>unbalanced := unbalanced b @ [rxn]\<rparr>)"
  using assms by (simp add: check_reaction_def parse_mapped_def)

lemma check_reaction_problematic:
  assumes "get_equilibrator_rxn_string api rxn = Inr s" and "parse_formula api s = Inr eq_rxn"
    and "check_full_reaction_balancing api eq_rxn = Inr True"
    and "isl (reversibility_index api eq_rxn)"
  shows "check_reaction api lngamma rxn b =
           Inr (b\<lparr>problematic_calculation := problematic_calculation b @ [rxn]\<rparr>)"
  using assms by (auto simp: check_reaction_def parse_mapped_def isl_def)

lemma check_reaction_computed:
  assumes "get_equilibrator_rxn_string api rxn = Inr s" and "parse_formula api s = Inr eq_rxn"
    and "check_full_reaction_balancing api eq_rxn = Inr True"
    and "reversibility_index api eq_rxn = Inr ln_RI"
  shows "check_reaction api lngamma rxn b =
           Inr (if float_lt ln_RI lngamma \<noteq> reversibility rxn
                then b\<lparr>incorrect_reversibility := incorrect_reversibility b @ [rxn]\<rparr>
                else b)"
  using assms by (simp add: check_reaction_def parse_mapped_def)

section \<open>Sorting the compound identifiers\<close>

lemma py_int_raises: "py_int s = Inl e \<Longrightarrow> e = ValueError"
  by (auto simp: py_int_def split: list.splits option.splits if_splits)

lemma sort_keys_Inr:
  "list_all has_number xs \<Longrightarrow> sort_keys xs = Inr (map (\<lambda>x. (kegg_number x, x)) xs)"
  by (induction xs) (auto simp: has_number_def kegg_number_def isl_def split: sum.splits)

lemma sort_keys_Inl:
  "\<not> list_all has_number xs \<Longrightarrow> sort_keys xs = Inl ValueError"
proof (induction xs)
  case Nil
  then show ?case by simp
next
  case (Cons x xs)
  show ?case
  proof (cases "py_int (lstrip_C x)")
    case (Inl e)
    then show ?thesis using py_int_raises [OF Inl] by simp
  next
    case (Inr k)
    then have "has_number x" by (simp add: has_number_def)
    with Cons.prems have "\<not> list_all has_number xs" by simp
    from Cons.IH [OF this] Inr show ?thesis by simp
  qed
qed

lemma insort_key_decorated:
  "insort_key fst (f x, x) (map (\<lambda>y. (f y, y)) zs) = map (\<lambda>y. (f y, y)) (insort_key f x zs)"
  by (induction zs) auto

lemma sort_key_decorated_map:
  "sort_key fst (map (\<lambda>y. (f y, y)) xs) = map (\<lambda>y. (f y, y)) (sort_key f xs)"
  by (induction xs) (auto simp: insort_key_decorated)

lemma sort_key_decorated:
  "map snd (sort_key fst (map (\<lambda>y. (f y, y)) xs)) = sort_key f xs"
  by (simp add: sort_key_decorated_map comp_def)

lemma smallest_compound_ID_eq:
  "smallest_compound_ID l =
     (if list_all has_number (filter has_C l)
      then Inr (sort_key kegg_number (filter has_C l))
      else Inl ValueError)"
  by (simp add: smallest_compound_ID_def sort_keys_Inr sort_keys_Inl sort_key_decorated)









section \<open>When \<open>get_equilibrator_rxn_string\<close> raises\<close>

lemma sort_key_Nil_iff: "sort_key f xs = [] \<longleftrightarrow> xs = []"
  by (metis length_sort list.size(3) length_0_conv)

lemma filter_has_C_Nil_iff: "filter has_C l = [] \<longleftrightarrow> \<not> list_ex has_C l"
  by (auto simp: filter_empty_conv list_ex_iff)





text \<open>The loop as a fold of the three rules.\<close>

lemma hd_insort_key:
  "hd (insort_key f x ys) = (if ys = [] then x else if f x \<le> f (hd ys) then x else hd ys)"
  by (cases ys) auto

lemma hd_sort_key: "xs \<noteq> [] \<Longrightarrow> hd (sort_key f xs) = arg_min_list f xs"
proof (induction f xs rule: arg_min_list.induct)
  case (1 f x)
  show ?case by simp
next
  case (2 f x y zs)
  have ne: "sort_key f (y # zs) \<noteq> []" by (simp add: sort_key_Nil_iff)
  from 2 have ih: "hd (sort_key f (y # zs)) = arg_min_list f (y # zs)" by simp
  have "hd (sort_key f (x # y # zs)) = hd (insort_key f x (sort_key f (y # zs)))"
    by simp
  also have "\<dots> = (if f x \<le> f (hd (sort_key f (y # zs))) then x else hd (sort_key f (y # zs)))"
    using ne by (simp only: hd_insort_key if_False)
  finally show ?case by (simp add: ih Let_def del: sort_key_simps)
next
  case (3 f)
  then show ?case by simp
qed

lemma match_by_name_rule:
  "match_by_name api met s =
     (case name_rule api met of None \<Rightarrow> s | Some k \<Rightarrow> replace s (met_id met) k)"
  by (simp add: match_by_name_def name_rule_def split: option.splits sum.splits list.splits)

lemma map_metabolite_rule:
  assumes "\<not> raises_on met"
  shows "map_metabolite api met s = Inr (replace_by_rule api met s)"
proof (cases "map_of (annotation met) ''kegg.compound''")
  case None
  then show ?thesis
    by (simp add: map_metabolite_def replace_by_rule_def first_applicable_rule_def
          string_rule_def list_rule_def match_by_name_rule)
next
  case (Some v)
  show ?thesis
  proof (cases v)
    case (AnnStr a)
    with Some show ?thesis
      by (simp add: map_metabolite_def replace_by_rule_def first_applicable_rule_def
            string_rule_def list_rule_def match_by_name_rule)
  next
    case (AnnList l)
    show ?thesis
    proof (cases "list_ex has_C l")
      case True
      then have ne: "filter has_C l \<noteq> []" by (simp add: filter_has_C_Nil_iff)
      from assms Some AnnList have ok: "list_all has_number (filter has_C l)"
        by (simp add: raises_on_def)
      from ne have "sort_key kegg_number (filter has_C l) \<noteq> []"
        by (simp add: sort_key_Nil_iff)
      then obtain y ys where ys: "sort_key kegg_number (filter has_C l) = y # ys"
        by (cases "sort_key kegg_number (filter has_C l)") auto
      with hd_sort_key [OF ne, of kegg_number]
      have "y = arg_min_list kegg_number (filter has_C l)" by simp
      with Some AnnList True ok ys show ?thesis
        by (simp add: map_metabolite_def replace_by_rule_def first_applicable_rule_def
              string_rule_def list_rule_def smallest_compound_ID_eq)
    next
      case False
      with Some AnnList show ?thesis
        by (simp add: map_metabolite_def replace_by_rule_def first_applicable_rule_def
              string_rule_def list_rule_def match_by_name_rule)
    qed
  next
    case AnnOther
    with Some show ?thesis
      by (simp add: map_metabolite_def replace_by_rule_def first_applicable_rule_def
            string_rule_def list_rule_def match_by_name_rule)
  qed
qed



text \<open>
  A metabolite to which no rule applies is passed over, and a failed lookup of its
  name changes nothing and raises nothing.
\<close>

lemma no_rule_not_raises_on:
  assumes "list_rule met = None"
  shows "\<not> raises_on met"
proof (cases "map_of (annotation met) ''kegg.compound''")
  case None
  then show ?thesis by (simp add: raises_on_def)
next
  case (Some v)
  show ?thesis
  proof (cases v)
    case (AnnList l)
    with assms Some have "\<not> list_ex has_C l"
      by (simp add: list_rule_def split: if_splits)
    then have "filter has_C l = []" by (simp add: filter_has_C_Nil_iff)
    with Some AnnList show ?thesis by (simp add: raises_on_def)
  qed (use Some in \<open>simp_all add: raises_on_def\<close>)
qed

lemma unmapped_metabolite_passed_over:
  assumes "first_applicable_rule api met = None"
  shows "map_metabolite api met s = Inr s"
proof -
  from assms have "list_rule met = None"
    by (simp add: first_applicable_rule_def split: option.splits)
  then have "\<not> raises_on met" by (rule no_rule_not_raises_on)
  then show ?thesis using assms by (simp add: map_metabolite_rule replace_by_rule_def)
qed

lemma failed_name_lookup_changes_nothing:
  assumes "name met = None \<or> name met = Some [] \<or>
           (\<exists>n. name met = Some n \<and> (isl (match api n) \<or> match api n = Inr []))"
  shows "match_by_name api met s = s"
  using assms by (auto simp: match_by_name_def isl_def split: option.splits)

section \<open>The answers the functions depend on\<close>

lemma match_by_name_cong:
  assumes "\<And>n. name met = Some n \<Longrightarrow> match api1 n = match api2 n"
  shows "match_by_name api1 met s = match_by_name api2 met s"
  using assms by (auto simp: match_by_name_def split: option.splits)

lemma map_metabolite_cong:
  assumes "\<And>n. name met = Some n \<Longrightarrow> match api1 n = match api2 n"
  shows "map_metabolite api1 met s = map_metabolite api2 met s"
proof -
  have "match_by_name api1 met s = match_by_name api2 met s"
    by (rule match_by_name_cong) (rule assms)
  then show ?thesis
    by (simp add: map_metabolite_def split: option.splits annotation_value.splits)
qed

lemma map_metabolites_cong:
  assumes "\<And>met n. met \<in> set mets \<Longrightarrow> name met = Some n \<Longrightarrow> match api1 n = match api2 n"
  shows "map_metabolites api1 mets s = map_metabolites api2 mets s"
  using assms
proof (induction mets arbitrary: s)
  case Nil
  show ?case by simp
next
  case (Cons met mets)
  have "map_metabolite api1 met s = map_metabolite api2 met s"
    by (rule map_metabolite_cong) (rule Cons.prems, simp_all)
  moreover have "map_metabolites api1 mets s' = map_metabolites api2 mets s'" for s'
    by (rule Cons.IH) (rule Cons.prems, simp_all)
  ultimately show ?case by (simp split: sum.splits)
qed

lemma get_equilibrator_rxn_string_cong:
  assumes "\<And>met n. met \<in> set (metabolites rxn) \<Longrightarrow> name met = Some n \<Longrightarrow>
             match api1 n = match api2 n"
  shows "get_equilibrator_rxn_string api1 rxn = get_equilibrator_rxn_string api2 rxn"
proof -
  have "map_metabolites api1 (metabolites rxn) (reaction rxn) =
        map_metabolites api2 (metabolites rxn) (reaction rxn)"
    by (rule map_metabolites_cong) (rule assms)
  then show ?thesis by (simp add: get_equilibrator_rxn_string_def)
qed

lemma check_reactions_cong:
  assumes "\<And>rxn. rxn \<in> set rs \<Longrightarrow> outcome api1 g rxn = outcome api2 g rxn"
  shows "check_reactions api1 g rs b = check_reactions api2 g rs b"
  using assms
proof (induction rs arbitrary: b)
  case Nil
  show ?case by simp
next
  case (Cons r rs)
  have "check_reaction api1 g r b = check_reaction api2 g r b"
    unfolding check_reaction_outcome by (simp add: Cons.prems)
  moreover have "check_reactions api1 g rs b' = check_reactions api2 g rs b'" for b'
    by (rule Cons.IH) (simp add: Cons.prems)
  ultimately show ?case by (simp split: sum.splits)
qed

section \<open>What a call leaves of the store\<close>

lemma prefix_list_update:
  "prefix xs ys \<Longrightarrow> length xs \<le> r \<Longrightarrow> prefix xs (ys[r := v])"
  by (auto simp: prefix_def list_update_append)

lemma prefix_assign: "prefix st0 st \<Longrightarrow> length st0 \<le> r \<Longrightarrow> prefix st0 (assign r obj st)"
  by (simp add: assign_def prefix_list_update)

lemma prefix_append_rxn:
  "prefix st0 st \<Longrightarrow> length st0 \<le> l \<Longrightarrow> prefix st0 (append_rxn l rxn st)"
  by (simp add: append_rxn_def prefix_assign split: option.splits py_object.splits)

lemma smallest_compound_ID_s_frame:
  "prefix st (snd (smallest_compound_ID_s kegg_ann_list st))"
  by (auto simp: smallest_compound_ID_s_def alloc_def lookup_def assign_def
           intro: prefix_list_update
           split: option.splits py_object.splits sum.splits)

lemma smallest_compound_ID_s_frameD:
  "smallest_compound_ID_s kegg_ann_list st = (r, st') \<Longrightarrow> prefix st st'"
  using smallest_compound_ID_s_frame [of st kegg_ann_list] by simp

lemma map_metabolite_s_frame:
  "prefix st (snd (map_metabolite_s api met kegg_rxn st))"
  by (auto simp: map_metabolite_s_def dest: smallest_compound_ID_s_frameD
           split: option.splits py_object.splits annotation_ref.splits prod.splits
                  sum.splits list.splits)

lemma map_metabolites_s_frame:
  "prefix st (snd (map_metabolites_s api mets kegg_rxn st))"
proof (induction mets arbitrary: kegg_rxn st)
  case Nil
  show ?case by simp
next
  case (Cons met mets)
  obtain r st1 where step: "map_metabolite_s api met kegg_rxn st = (r, st1)"
    by (cases "map_metabolite_s api met kegg_rxn st")
  with map_metabolite_s_frame [of st api met kegg_rxn] have p: "prefix st st1" by simp
  show ?case
  proof (cases r)
    case (Inl e)
    with step p show ?thesis by simp
  next
    case (Inr s')
    from p Cons.IH [where kegg_rxn = s' and st = st1]
    have "prefix st (snd (map_metabolites_s api mets s' st1))"
      by (rule prefix_order.trans)
    with step Inr show ?thesis by simp
  qed
qed

lemma map_metabolites_s_frameD:
  "map_metabolites_s api mets kegg_rxn st = (r, st') \<Longrightarrow> prefix st st'"
  using map_metabolites_s_frame [of st api mets kegg_rxn] by simp

lemma get_equilibrator_rxn_string_s_frame:
  "prefix st (snd (get_equilibrator_rxn_string_s api rxn st))"
  by (auto simp: get_equilibrator_rxn_string_s_def dest: map_metabolites_s_frameD
           split: option.splits py_object.splits prod.splits sum.splits)

lemma check_reaction_s_frame:
  assumes "prefix st0 st" and "fresh_refs st0 b"
  shows "prefix st0 (snd (check_reaction_s api lngamma b rxn st))"
proof -
  obtain r st1 where g: "get_equilibrator_rxn_string_s api rxn st = (r, st1)"
    by (cases "get_equilibrator_rxn_string_s api rxn st")
  with get_equilibrator_rxn_string_s_frame [of st api rxn] assms(1)
  have p: "prefix st0 st1" by (auto intro: prefix_order.trans)
  from assms(2) have f: "\<And>l rxn. l \<in> {incorrect_reversibility_ref b, incomplete_mapping_ref b,
      problematic_calculation_ref b, unbalanced_ref b} \<Longrightarrow> prefix st0 (append_rxn l rxn st1)"
    using p by (auto simp: fresh_refs_def intro: prefix_append_rxn)
  show ?thesis
    using g p f
    by (auto simp: check_reaction_s_def
             split: sum.splits option.splits py_object.splits)
qed

lemma check_reactions_s_frame:
  assumes "prefix st0 st" and "fresh_refs st0 b"
  shows "prefix st0 (snd (check_reactions_s api lngamma b rxns st))"
  using assms(1)
proof (induction rxns arbitrary: st)
  case Nil
  then show ?case by simp
next
  case (Cons rxn rxns)
  obtain r st1 where step: "check_reaction_s api lngamma b rxn st = (r, st1)"
    by (cases "check_reaction_s api lngamma b rxn st")
  with check_reaction_s_frame [OF Cons.prems assms(2), of api lngamma rxn]
  have p: "prefix st0 st1" by simp
  show ?case
  proof (cases r)
    case (Inl e)
    with step p show ?thesis by simp
  next
    case (Inr u)
    with step Cons.IH [OF p] show ?thesis by simp
  qed
qed

lemma check_reactions_s_frameD:
  "check_reactions_s api lngamma b rxns st = (r, st') \<Longrightarrow> prefix st0 st \<Longrightarrow>
   fresh_refs st0 b \<Longrightarrow> prefix st0 st'"
  using check_reactions_s_frame [of st0 st b api lngamma rxns] by simp

section \<open>The functions on the store compute what the functions on values do\<close>

lemma lookup_prefix: "prefix st st' \<Longrightarrow> lookup st r = Some x \<Longrightarrow> lookup st' r = Some x"
  by (auto simp: lookup_def prefix_def nth_append split: if_splits)

lemma value_rel_prefix: "prefix st st' \<Longrightarrow> value_rel st v v' \<Longrightarrow> value_rel st' v v'"
  by (cases "(st, v, v')" rule: value_rel.cases) (auto dest: lookup_prefix)

lemma item_rel_prefix: "prefix st st' \<Longrightarrow> item_rel st kv kv' \<Longrightarrow> item_rel st' kv kv'"
  by (auto simp: item_rel_def dest: value_rel_prefix)

lemma metabolite_rel_prefix:
  assumes "prefix st st'" and "metabolite_rel st r met"
  shows "metabolite_rel st' r met"
proof -
  from assms(2) obtain ann where
    l: "lookup st r = Some (Metabolite (met_id met) (name met) ann)" and
    a: "list_all2 (item_rel st) ann (annotation met)"
    by (auto simp: metabolite_rel_def split: option.splits py_object.splits)
  from a have "list_all2 (item_rel st') ann (annotation met)"
    by (rule list_all2_mono) (rule item_rel_prefix [OF assms(1)])
  with lookup_prefix [OF assms(1) l] show ?thesis by (simp add: metabolite_rel_def)
qed

lemma reaction_rel_prefix:
  assumes "prefix st st'" and "reaction_rel st r rxn"
  shows "reaction_rel st' r rxn"
proof -
  from assms(2) obtain mets where
    l: "lookup st r = Some (Reaction (rxn_id rxn) (reaction rxn) mets (reversibility rxn))" and
    a: "list_all2 (metabolite_rel st) mets (metabolites rxn)"
    by (auto simp: reaction_rel_def split: option.splits py_object.splits)
  from a have "list_all2 (metabolite_rel st') mets (metabolites rxn)"
    by (rule list_all2_mono) (rule metabolite_rel_prefix [OF assms(1)])
  with lookup_prefix [OF assms(1) l] show ?thesis by (simp add: reaction_rel_def)
qed

lemma map_of_item_rel:
  "list_all2 (item_rel st) ann ann' \<Longrightarrow>
     rel_option (value_rel st) (map_of ann k) (map_of ann' k)"
  by (induction ann ann' rule: list_all2_induct) (auto simp: item_rel_def)

lemma smallest_compound_ID_s_eq:
  assumes "lookup st kegg_ann_list = Some (StrList xs)"
  shows "smallest_compound_ID_s kegg_ann_list st =
           (case smallest_compound_ID xs of
              Inl e \<Rightarrow> (Inl e, st @ [StrList (filter has_C xs)])
            | Inr ys \<Rightarrow> (Inr (length st), st @ [StrList ys]))"
  using assms
  by (simp add: smallest_compound_ID_s_def smallest_compound_ID_def alloc_def lookup_def
        assign_def split: sum.splits)

lemma match_by_name_fields:
  "met_id met = met_id met' \<Longrightarrow> name met = name met' \<Longrightarrow>
     match_by_name api met s = match_by_name api met' s"
  by (simp add: match_by_name_def split: option.splits sum.splits list.splits)

lemma map_metabolite_s_sim:
  assumes "metabolite_rel st r met"
  shows "fst (map_metabolite_s api r s st) = map_metabolite api met s"
proof -
  from assms obtain ann where
    l: "lookup st r = Some (Metabolite (met_id met) (name met) ann)" and
    a: "list_all2 (item_rel st) ann (annotation met)"
    by (auto simp: metabolite_rel_def split: option.splits py_object.splits)
  have nb: "name_branch api (met_id met) (name met) s = match_by_name api met s"
    unfolding name_branch_def by (rule match_by_name_fields) simp_all
  note rel = map_of_item_rel [OF a, of "''kegg.compound''"]
  show ?thesis
  proof (cases "map_of ann ''kegg.compound''")
    case None
    with rel have "map_of (annotation met) ''kegg.compound'' = None" by simp
    with None l nb show ?thesis by (simp add: map_metabolite_s_def map_metabolite_def)
  next
    case (Some v)
    with rel obtain v' where v': "map_of (annotation met) ''kegg.compound'' = Some v'"
      and vr: "value_rel st v v'"
      by (auto simp: option_rel_Some1)
    show ?thesis
    proof (cases v)
      case (RefStr a)
      with vr have "v' = AnnStr a" by (cases v') simp_all
      with Some v' RefStr l nb show ?thesis
        by (simp add: map_metabolite_s_def map_metabolite_def)
    next
      case (RefList p)
      with vr obtain xs where x: "v' = AnnList xs" "lookup st p = Some (StrList xs)"
        by (cases v') simp_all
      show ?thesis
      proof (cases "smallest_compound_ID xs")
        case (Inl e)
        with Some v' RefList l nb x show ?thesis
          by (simp add: map_metabolite_s_def map_metabolite_def smallest_compound_ID_s_eq)
      next
        case (Inr ys)
        with Some v' RefList l nb x show ?thesis
          by (simp add: map_metabolite_s_def map_metabolite_def smallest_compound_ID_s_eq
                lookup_def split: list.splits)
      qed
    next
      case RefOther
      with vr have "v' = AnnOther" by (cases v') simp_all
      with Some v' RefOther l nb show ?thesis
        by (simp add: map_metabolite_s_def map_metabolite_def)
    qed
  qed
qed

lemma map_metabolites_s_sim:
  "list_all2 (metabolite_rel st) refs mets \<Longrightarrow>
     fst (map_metabolites_s api refs s st) = map_metabolites api mets s"
proof (induction refs arbitrary: mets s st)
  case Nil
  then show ?case by simp
next
  case (Cons r refs)
  from Cons.prems obtain met mets' where mets: "mets = met # mets'"
    and m: "metabolite_rel st r met" and ms: "list_all2 (metabolite_rel st) refs mets'"
    by (auto simp: list_all2_Cons1)
  obtain res st1 where step: "map_metabolite_s api r s st = (res, st1)"
    by (cases "map_metabolite_s api r s st")
  with map_metabolite_s_sim [OF m, of api s] have res: "res = map_metabolite api met s"
    by simp
  from step map_metabolite_s_frame [of st api r s] have p: "prefix st st1" by simp
  show ?case
  proof (cases res)
    case (Inl e)
    with res have pm: "map_metabolite api met s = Inl e" by simp
    from step Inl have "map_metabolite_s api r s st = (Inl e, st1)" by simp
    with pm mets show ?thesis by simp
  next
    case (Inr s')
    with res have pm: "map_metabolite api met s = Inr s'" by simp
    from step Inr have sm: "map_metabolite_s api r s st = (Inr s', st1)" by simp
    from ms have "list_all2 (metabolite_rel st1) refs mets'"
      by (rule list_all2_mono) (rule metabolite_rel_prefix [OF p])
    from Cons.IH [OF this, of s'] pm sm mets show ?thesis by simp
  qed
qed

lemma get_equilibrator_rxn_string_s_sim:
  assumes "reaction_rel st r rxn"
  shows "fst (get_equilibrator_rxn_string_s api r st) = get_equilibrator_rxn_string api rxn"
proof -
  from assms obtain mets where
    l: "lookup st r = Some (Reaction (rxn_id rxn) (reaction rxn) mets (reversibility rxn))" and
    a: "list_all2 (metabolite_rel st) mets (metabolites rxn)"
    by (auto simp: reaction_rel_def split: option.splits py_object.splits)
  obtain res st1 where m: "map_metabolites_s api mets (reaction rxn) st = (res, st1)"
    by (cases "map_metabolites_s api mets (reaction rxn) st")
  with map_metabolites_s_sim [OF a, of api "reaction rxn"]
  have "res = map_metabolites api (metabolites rxn) (reaction rxn)" by (metis fst_conv)
  with l m show ?thesis
    by (simp add: get_equilibrator_rxn_string_s_def get_equilibrator_rxn_string_def
          split: sum.splits)
qed

lemma lookup_append_rxn_other: "l' \<noteq> l \<Longrightarrow> lookup (append_rxn l rxn st) l' = lookup st l'"
  by (simp add: append_rxn_def assign_def lookup_def split: option.splits py_object.splits)

lemma lookup_append_rxn_same:
  "lookup st l = Some (RxnList refs) \<Longrightarrow>
     lookup (append_rxn l rxn st) l = Some (RxnList (refs @ [rxn]))"
  by (simp add: append_rxn_def assign_def lookup_def split: if_splits)

lemma bucket_rel_append_same:
  "bucket_rel st0 st l xs \<Longrightarrow> reaction_rel st0 rxn R \<Longrightarrow>
     bucket_rel st0 (append_rxn l rxn st) l (xs @ [R])"
  by (auto simp: bucket_rel_def lookup_append_rxn_same list_all2_appendI
           split: option.splits py_object.splits)

lemma bucket_rel_append_other:
  "l' \<noteq> l \<Longrightarrow> bucket_rel st0 (append_rxn l rxn st) l' xs = bucket_rel st0 st l' xs"
  by (simp add: bucket_rel_def lookup_append_rxn_other)

lemma bucket_rel_prefix:
  "prefix st st' \<Longrightarrow> bucket_rel st0 st l xs \<Longrightarrow> bucket_rel st0 st' l xs"
  by (auto simp: bucket_rel_def dest: lookup_prefix split: option.splits py_object.splits)

lemma buckets_rel_prefix:
  "prefix st st' \<Longrightarrow> buckets_rel st0 st b B \<Longrightarrow> buckets_rel st0 st' b B"
  by (auto simp: buckets_rel_def dest: bucket_rel_prefix)

lemma buckets_rel_append:
  assumes "buckets_rel st0 st b B" and "distinct_refs b" and "reaction_rel st0 rxn R"
  shows "buckets_rel st0 (append_rxn (incorrect_reversibility_ref b) rxn st) b
           (B\<lparr>incorrect_reversibility := incorrect_reversibility B @ [R]\<rparr>)"
    and "buckets_rel st0 (append_rxn (incomplete_mapping_ref b) rxn st) b
           (B\<lparr>incomplete_mapping := incomplete_mapping B @ [R]\<rparr>)"
    and "buckets_rel st0 (append_rxn (problematic_calculation_ref b) rxn st) b
           (B\<lparr>problematic_calculation := problematic_calculation B @ [R]\<rparr>)"
    and "buckets_rel st0 (append_rxn (unbalanced_ref b) rxn st) b
           (B\<lparr>unbalanced := unbalanced B @ [R]\<rparr>)"
  using assms
  by (auto simp: buckets_rel_def distinct_refs_def bucket_rel_append_same
        bucket_rel_append_other)

lemma check_reaction_s_sim:
  assumes rxn: "reaction_rel st0 rxn R" and p: "prefix st0 st"
    and d: "distinct_refs b" and B: "buckets_rel st0 st b B"
  shows "case check_reaction_s api g b rxn st of
           (Inl e, st1) \<Rightarrow> check_reaction api g R B = Inl e
         | (Inr u, st1) \<Rightarrow> (\<exists>B1. check_reaction api g R B = Inr B1 \<and> buckets_rel st0 st1 b B1)"
proof -
  obtain res st1 where g: "get_equilibrator_rxn_string_s api rxn st = (res, st1)"
    by (cases "get_equilibrator_rxn_string_s api rxn st")
  from reaction_rel_prefix [OF p rxn] have r1: "reaction_rel st rxn R" .
  from get_equilibrator_rxn_string_s_sim [OF r1, of api] g
  have res: "get_equilibrator_rxn_string api R = res" by simp
  from g get_equilibrator_rxn_string_s_frame [of st api rxn] have p1: "prefix st st1" by simp
  from buckets_rel_prefix [OF p1 B] have B1: "buckets_rel st0 st1 b B" .
  note ap = buckets_rel_append [OF B1 d rxn]
  from reaction_rel_prefix [OF p1 r1] obtain mets where
    l: "lookup st1 rxn = Some (Reaction (rxn_id R) (reaction R) mets (reversibility R))"
    by (auto simp: reaction_rel_def split: option.splits py_object.splits)
  show ?thesis
  proof (cases res)
    case (Inl e)
    with g res ap(2) show ?thesis
      by (simp add: check_reaction_s_def check_reaction_def parse_mapped_def)
  next
    case (Inr s)
    show ?thesis
    proof (cases "parse_formula api s")
      case (Inl e)
      with g res Inr ap(2) show ?thesis
        by (simp add: check_reaction_s_def check_reaction_def parse_mapped_def)
    next
      case q: (Inr eq_rxn)
      show ?thesis
      proof (cases "check_full_reaction_balancing api eq_rxn")
        case (Inl e)
        with g res Inr q show ?thesis
          by (simp add: check_reaction_s_def check_reaction_def parse_mapped_def)
      next
        case bal: (Inr balanced)
        show ?thesis
        proof (cases balanced)
          case False
          with g res Inr q bal ap(4) show ?thesis
            by (simp add: check_reaction_s_def check_reaction_def parse_mapped_def)
        next
          case True
          show ?thesis
          proof (cases "reversibility_index api eq_rxn")
            case (Inl e)
            with g res Inr q bal True ap(3) show ?thesis
              by (simp add: check_reaction_s_def check_reaction_def parse_mapped_def)
          next
            case ri: (Inr ln_RI)
            with g res Inr q bal True ap(1) l B1 show ?thesis
              by (simp add: check_reaction_s_def check_reaction_def parse_mapped_def)
          qed
        qed
      qed
    qed
  qed
qed

lemma check_reactions_s_sim:
  assumes "list_all2 (reaction_rel st0) refs rxns" and "prefix st0 st"
    and "fresh_refs st0 b" and "distinct_refs b" and "buckets_rel st0 st b B"
  shows "case check_reactions_s api g b refs st of
           (Inl e, st') \<Rightarrow> check_reactions api g rxns B = Inl e
         | (Inr u, st') \<Rightarrow>
             (\<exists>B'. check_reactions api g rxns B = Inr B' \<and> buckets_rel st0 st' b B')"
  using assms(1,2,5)
proof (induction refs arbitrary: rxns st B)
  case Nil
  then show ?case by auto
next
  case (Cons r refs)
  from Cons.prems(1) obtain R rxns' where rxns: "rxns = R # rxns'"
    and r: "reaction_rel st0 r R" and rs: "list_all2 (reaction_rel st0) refs rxns'"
    by (auto simp: list_all2_Cons1)
  obtain res st1 where step: "check_reaction_s api g b r st = (res, st1)"
    by (cases "check_reaction_s api g b r st")
  from check_reaction_s_frame [OF Cons.prems(2) assms(3), of api g r] step
  have p1: "prefix st0 st1" by simp
  note sim = check_reaction_s_sim [OF r Cons.prems(2) assms(4) Cons.prems(3), of api g]
  show ?case
  proof (cases res)
    case (Inl e)
    with sim step have "check_reaction api g R B = Inl e" by simp
    with step Inl rxns show ?thesis by simp
  next
    case (Inr u)
    with sim step obtain B1 where c: "check_reaction api g R B = Inr B1"
      and b1: "buckets_rel st0 st1 b B1"
      by auto
    have e1: "check_reactions api g rxns B = check_reactions api g rxns' B1"
      using c rxns by simp
    have e2: "check_reactions_s api g b (r # refs) st = check_reactions_s api g b refs st1"
      using step Inr by simp
    show ?thesis unfolding e1 e2 by (rule Cons.IH [OF rs p1 b1])
  qed
qed

lemma bucket_rel_reaction_list_rel:
  assumes "prefix st0 st" and "bucket_rel st0 st l xs"
  shows "reaction_list_rel st l xs"
proof -
  from assms(2) obtain refs where l: "lookup st l = Some (RxnList refs)"
    and a: "list_all2 (reaction_rel st0) refs xs"
    by (auto simp: bucket_rel_def split: option.splits py_object.splits)
  from a have "list_all2 (reaction_rel st) refs xs"
    by (rule list_all2_mono) (rule reaction_rel_prefix [OF assms(1)])
  with l show ?thesis by (simp add: reaction_list_rel_def)
qed

lemma find_incorrect_thermodynamic_reversibility_s_sim:
  assumes "reaction_list_rel st reactions rxns"
  shows "case find_incorrect_thermodynamic_reversibility_s api reactions lngamma st of
           (Inl e, st') \<Rightarrow> find_incorrect_thermodynamic_reversibility api rxns lngamma = Inl e
         | (Inr (ir, im, pc, ub), st') \<Rightarrow>
             (\<exists>a b c d.
                find_incorrect_thermodynamic_reversibility api rxns lngamma = Inr (a, b, c, d) \<and>
                reaction_list_rel st' ir a \<and> reaction_list_rel st' im b \<and>
                reaction_list_rel st' pc c \<and> reaction_list_rel st' ub d)"
proof -
  let ?b = "\<lparr>incorrect_reversibility_ref = Suc (Suc (length st)),
             incomplete_mapping_ref = length st,
             problematic_calculation_ref = Suc (length st),
             unbalanced_ref = Suc (Suc (Suc (length st)))\<rparr>"
  let ?st4 = "st @ [RxnList [], RxnList [], RxnList [], RxnList []]"
  let ?B0 = "\<lparr>incorrect_reversibility = [], incomplete_mapping = [],
              problematic_calculation = [], unbalanced = []\<rparr>"
  from assms obtain refs where l: "lookup st reactions = Some (RxnList refs)"
    and a: "list_all2 (reaction_rel st) refs rxns"
    by (auto simp: reaction_list_rel_def split: option.splits py_object.splits)
  have p: "prefix st ?st4" by simp
  from lookup_prefix [OF p l] have l4: "lookup ?st4 reactions = Some (RxnList refs)" .
  have f: "fresh_refs st ?b" by (simp add: fresh_refs_def)
  have d: "distinct_refs ?b" by (simp add: distinct_refs_def)
  have B0: "buckets_rel st ?st4 ?b ?B0"
    by (simp add: buckets_rel_def bucket_rel_def lookup_def nth_append)
  obtain res st5 where run: "check_reactions_s api lngamma ?b refs ?st4 = (res, st5)"
    by (cases "check_reactions_s api lngamma ?b refs ?st4")
  from check_reactions_s_frame [OF p f, of api lngamma refs] run have p5: "prefix st st5"
    by simp
  note sim = check_reactions_s_sim [OF a p f d B0, of api lngamma]
  have unfold: "find_incorrect_thermodynamic_reversibility_s api reactions lngamma st =
      (case res of
         Inl e \<Rightarrow> (Inl e, st5)
       | Inr u \<Rightarrow> (Inr (Suc (Suc (length st)), length st, Suc (length st),
                        Suc (Suc (Suc (length st)))), st5))"
    using l4 run
    by (simp add: find_incorrect_thermodynamic_reversibility_s_def alloc_def split: sum.splits)
  show ?thesis
  proof (cases res)
    case (Inl e)
    with sim run have "check_reactions api lngamma rxns ?B0 = Inl e" by simp
    with unfold Inl show ?thesis
      by (simp add: find_incorrect_thermodynamic_reversibility_def)
  next
    case (Inr u)
    with sim run obtain B' where c: "check_reactions api lngamma rxns ?B0 = Inr B'"
      and b: "buckets_rel st st5 ?b B'"
      by auto
    from b have
      "reaction_list_rel st5 (Suc (Suc (length st))) (incorrect_reversibility B')"
      "reaction_list_rel st5 (length st) (incomplete_mapping B')"
      "reaction_list_rel st5 (Suc (length st)) (problematic_calculation B')"
      "reaction_list_rel st5 (Suc (Suc (Suc (length st)))) (unbalanced B')"
      by (auto simp: buckets_rel_def intro: bucket_rel_reaction_list_rel [OF p5])
    with unfold Inr c show ?thesis
      by (simp add: find_incorrect_thermodynamic_reversibility_def)
  qed
qed

lemma reaction_list_rel_prefix:
  assumes "prefix st st'" and "reaction_list_rel st l xs"
  shows "reaction_list_rel st' l xs"
proof -
  from assms(2) obtain refs where l: "lookup st l = Some (RxnList refs)"
    and a: "list_all2 (reaction_rel st) refs xs"
    by (auto simp: reaction_list_rel_def split: option.splits py_object.splits)
  from a have "list_all2 (reaction_rel st') refs xs"
    by (rule list_all2_mono) (rule reaction_rel_prefix [OF assms(1)])
  with lookup_prefix [OF assms(1) l] show ?thesis by (simp add: reaction_list_rel_def)
qed

section \<open>Properties of \<open>find_incorrect_thermodynamic_reversibility\<close>\<close>

text \<open>
  Claim C1 says that every reaction of the input appears in exactly one of the four
  returned lists. The loop's \<open>else: continue\<close> appends a reaction whose annotated
  reversibility agrees with the thermodynamic verdict to no list: the lactate
  dehydrogenase reaction of the example, reversible and with a reversibility index of
  1 below the cutoff 3, is in none of them.
\<close>

theorem agreeing_reaction_in_no_list:
  "find_incorrect_thermodynamic_reversibility example_api [LDH] 3 = Inr ([], [], [], [])"
  by code_simp

text \<open>
  Claim C1, amended: when the function returns, every reaction of the input appears
  in at most one of the four returned lists, and in none of them exactly when its
  mapped string parses, the balance check passes, the reversibility index is computed
  and the verdict \<open>ln_RI < lngamma\<close> equals the annotated reversibility.
\<close>

theorem reaction_in_at_most_one_list:
  assumes "find_incorrect_thermodynamic_reversibility api reactions lngamma = Inr (ir, im, pc, ub)"
    and "rxn \<in> set reactions"
  shows "length (filter (\<lambda>l. rxn \<in> set l) [ir, im, pc, ub]) =
           (if \<exists>s eq_rxn ln_RI.
                 get_equilibrator_rxn_string api rxn = Inr s \<and>
                 parse_formula api s = Inr eq_rxn \<and>
                 check_full_reaction_balancing api eq_rxn = Inr True \<and>
                 reversibility_index api eq_rxn = Inr ln_RI \<and>
                 float_lt ln_RI lngamma = reversibility rxn
            then 0 else 1)"
proof -
  note f = find_filter [OF assms(1)]
  have mem: "rxn \<in> set ir \<longleftrightarrow> goes_to api lngamma Incorrect rxn"
            "rxn \<in> set im \<longleftrightarrow> goes_to api lngamma Incomplete rxn"
            "rxn \<in> set pc \<longleftrightarrow> goes_to api lngamma Problematic rxn"
            "rxn \<in> set ub \<longleftrightarrow> goes_to api lngamma Unbalanced rxn"
    using f assms(2) by simp_all
  have ret: "\<not> isl (outcome api lngamma rxn)"
    by (rule find_returns_outcome [OF assms])
  let ?agree = "\<exists>s eq_rxn ln_RI.
                 get_equilibrator_rxn_string api rxn = Inr s \<and>
                 parse_formula api s = Inr eq_rxn \<and>
                 check_full_reaction_balancing api eq_rxn = Inr True \<and>
                 reversibility_index api eq_rxn = Inr ln_RI \<and>
                 float_lt ln_RI lngamma = reversibility rxn"
  have agree_iff: "?agree \<longleftrightarrow> outcome api lngamma rxn = Inr None"
    by (simp only: outcome_None_iff)
  show ?thesis
  proof (cases "outcome api lngamma rxn")
    case (Inl e) with ret show ?thesis by simp
  next
    case (Inr v)
    show ?thesis
    proof (cases v)
      case None
      with Inr agree_iff have "?agree" by simp
      moreover from None Inr have "\<forall>k. \<not> goes_to api lngamma k rxn" by (simp add: goes_to_def)
      ultimately show ?thesis using mem by simp
    next
      case (Some k)
      with Inr agree_iff have na: "\<not> ?agree" by simp
      from Some Inr have k: "\<And>k'. goes_to api lngamma k' rxn \<longleftrightarrow> k' = k"
        by (auto simp: goes_to_def)
      show ?thesis using na mem k by (cases k) simp_all
    qed
  qed
qed

theorem reaction_in_at_most_one_list_witness:
  "find_incorrect_thermodynamic_reversibility example_api [LDH, ATPM, PPA, HYD, NADH, GLC] 3 =
     Inr ([ATPM], [NADH, GLC], [HYD], [PPA]) \<and>
   LDH \<in> set [LDH, ATPM, PPA, HYD, NADH, GLC] \<and>
   HYD \<in> set [LDH, ATPM, PPA, HYD, NADH, GLC] \<and>
   length (filter (\<lambda>l. LDH \<in> set l) [[ATPM], [NADH, GLC], [HYD], [PPA]]) = 0 \<and>
   length (filter (\<lambda>l. HYD \<in> set l) [[ATPM], [NADH, GLC], [HYD], [PPA]]) = 1"
proof -
  have run: "find_incorrect_thermodynamic_reversibility example_api [LDH, ATPM, PPA, HYD, NADH, GLC] 3 =
     Inr ([ATPM], [NADH, GLC], [HYD], [PPA])"
    by code_simp
  have ldh: "LDH \<in> set [LDH, ATPM, PPA, HYD, NADH, GLC]" and hyd: "HYD \<in> set [LDH, ATPM, PPA, HYD, NADH, GLC]"
    by simp_all
  have agree: "\<exists>s eq_rxn ln_RI.
      get_equilibrator_rxn_string example_api LDH = Inr s \<and>
      parse_formula example_api s = Inr eq_rxn \<and>
      check_full_reaction_balancing example_api eq_rxn = Inr True \<and>
      reversibility_index example_api eq_rxn = Inr ln_RI \<and>
      float_lt ln_RI 3 = reversibility LDH"
  proof (intro exI conjI)
    show "get_equilibrator_rxn_string example_api LDH = Inr ''C00022 <=> C00186''"
      by code_simp
    show "parse_formula example_api ''C00022 <=> C00186'' = Inr ''C00022 <=> C00186''"
      by code_simp
    show "check_full_reaction_balancing example_api ''C00022 <=> C00186'' = Inr True"
      by code_simp
    show "reversibility_index example_api ''C00022 <=> C00186'' = Inr (Finite 1)"
      by code_simp
    show "float_lt (Finite 1) 3 = reversibility LDH"
      by code_simp
  qed
  have no: "\<not> (\<exists>s eq_rxn ln_RI.
      get_equilibrator_rxn_string example_api HYD = Inr s \<and>
      parse_formula example_api s = Inr eq_rxn \<and>
      check_full_reaction_balancing example_api eq_rxn = Inr True \<and>
      reversibility_index example_api eq_rxn = Inr ln_RI \<and>
      float_lt ln_RI 3 = reversibility HYD)"
  proof -
    have s: "get_equilibrator_rxn_string example_api HYD = Inr ''C00001 -> C00080''"
      by code_simp
    have p: "parse_formula example_api ''C00001 -> C00080'' = Inr ''C00001 -> C00080''"
      by code_simp
    have r: "isl (reversibility_index example_api ''C00001 -> C00080'')"
      by code_simp
    show ?thesis using s p r by (auto simp: isl_def)
  qed
  from reaction_in_at_most_one_list [OF run ldh] agree
  have c1: "length (filter (\<lambda>l. LDH \<in> set l) [[ATPM], [NADH, GLC], [HYD], [PPA]]) = 0"
    by (simp only: if_True)
  from reaction_in_at_most_one_list [OF run hyd] no
  have c2: "length (filter (\<lambda>l. HYD \<in> set l) [[ATPM], [NADH, GLC], [HYD], [PPA]]) = 1"
    by (simp only: if_False)
  from run ldh hyd c1 c2 show ?thesis by (intro conjI)
qed

text \<open>
  Claim C2: the three stages run in sequence and each failure is routed to its list.
  For a reaction of the input, when the function returns: if building the mapped
  string or parsing it raises, the reaction is in \<open>incomplete_mapping\<close> and in no other
  list (nothing of the later stages happened to it); if the string parses and the
  balance check answers false, it is in \<open>unbalanced\<close> only; if the string parses, the
  balance check answers true and the reversibility index raises, it is in
  \<open>problematic_calculation\<close> only. In each of the three cases the loop body, from
  any four lists \<open>b\<close>, returns \<open>b\<close> with the reaction appended to that one list: it
  raises nothing and does nothing else.
\<close>

theorem stage_failures_routed:
  assumes "find_incorrect_thermodynamic_reversibility api reactions lngamma = Inr (ir, im, pc, ub)"
    and "rxn \<in> set reactions"
  shows "(isl (get_equilibrator_rxn_string api rxn) \<or>
          (\<exists>s. get_equilibrator_rxn_string api rxn = Inr s \<and> isl (parse_formula api s))
          \<longrightarrow> check_reaction api lngamma rxn b =
                Inr (b\<lparr>incomplete_mapping := incomplete_mapping b @ [rxn]\<rparr>) \<and>
              rxn \<in> set im \<and> rxn \<notin> set ir \<and> rxn \<notin> set pc \<and> rxn \<notin> set ub) \<and>
         (\<forall>s eq_rxn. get_equilibrator_rxn_string api rxn = Inr s \<and>
            parse_formula api s = Inr eq_rxn \<and>
            check_full_reaction_balancing api eq_rxn = Inr False
          \<longrightarrow> check_reaction api lngamma rxn b =
                Inr (b\<lparr>unbalanced := unbalanced b @ [rxn]\<rparr>) \<and>
              rxn \<in> set ub \<and> rxn \<notin> set ir \<and> rxn \<notin> set im \<and> rxn \<notin> set pc) \<and>
         (\<forall>s eq_rxn. get_equilibrator_rxn_string api rxn = Inr s \<and>
            parse_formula api s = Inr eq_rxn \<and>
            check_full_reaction_balancing api eq_rxn = Inr True \<and>
            isl (reversibility_index api eq_rxn)
          \<longrightarrow> check_reaction api lngamma rxn b =
                Inr (b\<lparr>problematic_calculation := problematic_calculation b @ [rxn]\<rparr>) \<and>
              rxn \<in> set pc \<and> rxn \<notin> set ir \<and> rxn \<notin> set im \<and> rxn \<notin> set ub)"
proof -
  note f = find_filter [OF assms(1)]
  have mem: "rxn \<in> set ir \<longleftrightarrow> goes_to api lngamma Incorrect rxn"
            "rxn \<in> set im \<longleftrightarrow> goes_to api lngamma Incomplete rxn"
            "rxn \<in> set pc \<longleftrightarrow> goes_to api lngamma Problematic rxn"
            "rxn \<in> set ub \<longleftrightarrow> goes_to api lngamma Unbalanced rxn"
    using f assms(2) by simp_all
  have only: "rxn \<in> set ir \<longleftrightarrow> k = Incorrect" "rxn \<in> set im \<longleftrightarrow> k = Incomplete"
             "rxn \<in> set pc \<longleftrightarrow> k = Problematic" "rxn \<in> set ub \<longleftrightarrow> k = Unbalanced"
    if "goes_to api lngamma k rxn" for k
    using that unfolding mem by (auto simp: goes_to_def)
  have a: "rxn \<in> set im \<and> rxn \<notin> set ir \<and> rxn \<notin> set pc \<and> rxn \<notin> set ub"
    if "isl (get_equilibrator_rxn_string api rxn) \<or>
        (\<exists>s. get_equilibrator_rxn_string api rxn = Inr s \<and> isl (parse_formula api s))"
  proof -
    from that have "goes_to api lngamma Incomplete rxn"
      by (auto simp: goes_to_Incomplete_iff parse_mapped_def isl_def split: sum.splits)
    from only [OF this] show ?thesis by simp
  qed
  have b: "rxn \<in> set ub \<and> rxn \<notin> set ir \<and> rxn \<notin> set im \<and> rxn \<notin> set pc"
    if "get_equilibrator_rxn_string api rxn = Inr s \<and> parse_formula api s = Inr eq_rxn \<and>
        check_full_reaction_balancing api eq_rxn = Inr False" for s eq_rxn
  proof -
    from that have "goes_to api lngamma Unbalanced rxn"
      by (auto simp: goes_to_Unbalanced_iff parse_mapped_Inr_iff)
    from only [OF this] show ?thesis by simp
  qed
  have c: "rxn \<in> set pc \<and> rxn \<notin> set ir \<and> rxn \<notin> set im \<and> rxn \<notin> set ub"
    if "get_equilibrator_rxn_string api rxn = Inr s \<and> parse_formula api s = Inr eq_rxn \<and>
        check_full_reaction_balancing api eq_rxn = Inr True \<and>
        isl (reversibility_index api eq_rxn)" for s eq_rxn
  proof -
    from that have "goes_to api lngamma Problematic rxn"
      by (auto simp: goes_to_Problematic_iff parse_mapped_Inr_iff)
    from only [OF this] show ?thesis by simp
  qed
  note a' = check_reaction_mapping_fails [of api rxn lngamma b]
  note b' = check_reaction_unbalanced [of api rxn _ _ lngamma b]
  note c' = check_reaction_problematic [of api rxn _ _ lngamma b]
  show ?thesis
  proof (intro conjI allI impI)
    assume h: "isl (get_equilibrator_rxn_string api rxn) \<or>
        (\<exists>s. get_equilibrator_rxn_string api rxn = Inr s \<and> isl (parse_formula api s))"
    from a' [OF h] show "check_reaction api lngamma rxn b =
        Inr (b\<lparr>incomplete_mapping := incomplete_mapping b @ [rxn]\<rparr>)" .
    from a [OF h] show "rxn \<in> set im" "rxn \<notin> set ir" "rxn \<notin> set pc" "rxn \<notin> set ub"
      by simp_all
  next
    fix s eq_rxn
    assume h: "get_equilibrator_rxn_string api rxn = Inr s \<and> parse_formula api s = Inr eq_rxn \<and>
        check_full_reaction_balancing api eq_rxn = Inr False"
    from h b' show "check_reaction api lngamma rxn b =
        Inr (b\<lparr>unbalanced := unbalanced b @ [rxn]\<rparr>)" by blast
    from b [OF h] show "rxn \<in> set ub" "rxn \<notin> set ir" "rxn \<notin> set im" "rxn \<notin> set pc"
      by simp_all
  next
    fix s eq_rxn
    assume h: "get_equilibrator_rxn_string api rxn = Inr s \<and> parse_formula api s = Inr eq_rxn \<and>
        check_full_reaction_balancing api eq_rxn = Inr True \<and>
        isl (reversibility_index api eq_rxn)"
    from h c' show "check_reaction api lngamma rxn b =
        Inr (b\<lparr>problematic_calculation := problematic_calculation b @ [rxn]\<rparr>)" by blast
    from c [OF h] show "rxn \<in> set pc" "rxn \<notin> set ir" "rxn \<notin> set im" "rxn \<notin> set ub"
      by simp_all
  qed
qed

theorem stage_failures_routed_witness:
  "find_incorrect_thermodynamic_reversibility example_api [LDH, ATPM, PPA, HYD, NADH, GLC] 3 =
     Inr ([ATPM], [NADH, GLC], [HYD], [PPA]) \<and>
   isl (get_equilibrator_rxn_string example_api GLC) \<and>
   GLC \<in> set [NADH, GLC] \<and> GLC \<notin> set [ATPM] \<and> GLC \<notin> set [HYD] \<and> GLC \<notin> set [PPA] \<and>
   check_full_reaction_balancing example_api ''C00013 -> C00009'' = Inr False \<and>
   PPA \<in> set [PPA] \<and> PPA \<notin> set [ATPM] \<and> PPA \<notin> set [NADH, GLC] \<and> PPA \<notin> set [HYD] \<and>
   isl (reversibility_index example_api ''C00001 -> C00080'') \<and>
   HYD \<in> set [HYD] \<and> HYD \<notin> set [ATPM] \<and> HYD \<notin> set [NADH, GLC] \<and> HYD \<notin> set [PPA]"
proof -
  have run: "find_incorrect_thermodynamic_reversibility example_api [LDH, ATPM, PPA, HYD, NADH, GLC] 3 =
     Inr ([ATPM], [NADH, GLC], [HYD], [PPA])"
    by code_simp
  have glc: "GLC \<in> set [LDH, ATPM, PPA, HYD, NADH, GLC]" and ppa: "PPA \<in> set [LDH, ATPM, PPA, HYD, NADH, GLC]"
    and hyd: "HYD \<in> set [LDH, ATPM, PPA, HYD, NADH, GLC]"
    by simp_all
  have g1: "isl (get_equilibrator_rxn_string example_api GLC)"
    by code_simp
  have p1: "get_equilibrator_rxn_string example_api PPA = Inr ''C00013 -> C00009''"
    and p2: "parse_formula example_api ''C00013 -> C00009'' = Inr ''C00013 -> C00009''"
    and p3: "check_full_reaction_balancing example_api ''C00013 -> C00009'' = Inr False"
    by code_simp+
  have h1: "get_equilibrator_rxn_string example_api HYD = Inr ''C00001 -> C00080''"
    and h2: "parse_formula example_api ''C00001 -> C00080'' = Inr ''C00001 -> C00080''"
    and h3: "check_full_reaction_balancing example_api ''C00001 -> C00080'' = Inr True"
    and h4: "isl (reversibility_index example_api ''C00001 -> C00080'')"
    by code_simp+
  from stage_failures_routed [OF run glc] g1
  have a: "GLC \<in> set [NADH, GLC] \<and> GLC \<notin> set [ATPM] \<and> GLC \<notin> set [HYD] \<and> GLC \<notin> set [PPA]"
    by blast
  from stage_failures_routed [OF run ppa] p1 p2 p3
  have b: "PPA \<in> set [PPA] \<and> PPA \<notin> set [ATPM] \<and> PPA \<notin> set [NADH, GLC] \<and> PPA \<notin> set [HYD]"
    by blast
  from stage_failures_routed [OF run hyd] h1 h2 h3 h4
  have c: "HYD \<in> set [HYD] \<and> HYD \<notin> set [ATPM] \<and> HYD \<notin> set [NADH, GLC] \<and> HYD \<notin> set [PPA]"
    by blast
  from run g1 a p3 b h4 c show ?thesis by (intro conjI) blast+
qed

text \<open>
  Claim C3: a reaction of the input whose mapped string parses, whose balance check
  passes and whose reversibility index \<open>ln_RI\<close> is computed is in
  \<open>incorrect_reversibility\<close> exactly when \<open>ln_RI < lngamma\<close> differs from its
  \<open>reversibility\<close> attribute; it is in none of the other three lists, so in no list
  at all when the two agree. The loop body appends it to \<open>incorrect_reversibility\<close>
  when the two differ and leaves the four lists as they are when they agree.
\<close>

theorem incorrect_reversibility_iff_disagreement:
  assumes "find_incorrect_thermodynamic_reversibility api reactions lngamma = Inr (ir, im, pc, ub)"
    and "rxn \<in> set reactions"
    and "get_equilibrator_rxn_string api rxn = Inr s"
    and "parse_formula api s = Inr eq_rxn"
    and "check_full_reaction_balancing api eq_rxn = Inr True"
    and "reversibility_index api eq_rxn = Inr ln_RI"
  shows "(rxn \<in> set ir \<longleftrightarrow> float_lt ln_RI lngamma \<noteq> reversibility rxn) \<and>
         rxn \<notin> set im \<and> rxn \<notin> set pc \<and> rxn \<notin> set ub \<and>
         check_reaction api lngamma rxn b =
           Inr (if float_lt ln_RI lngamma \<noteq> reversibility rxn
                then b\<lparr>incorrect_reversibility := incorrect_reversibility b @ [rxn]\<rparr>
                else b)"
proof -
  note step = check_reaction_computed [OF assms(3-6), of lngamma b]
  have pm: "parse_mapped api rxn = Inr eq_rxn"
    using assms(3,4) by (simp add: parse_mapped_def)
  have "goes_to api lngamma Incorrect rxn \<longleftrightarrow> float_lt ln_RI lngamma \<noteq> reversibility rxn"
    using pm assms(5,6) by (simp add: goes_to_Incorrect_iff)
  moreover have "\<not> goes_to api lngamma Incomplete rxn"
    using pm by (simp add: goes_to_Incomplete_iff)
  moreover have "\<not> goes_to api lngamma Problematic rxn"
    using pm assms(5,6) by (simp add: goes_to_Problematic_iff)
  moreover have "\<not> goes_to api lngamma Unbalanced rxn"
    using pm assms(5) by (simp add: goes_to_Unbalanced_iff)
  ultimately have "(rxn \<in> set ir \<longleftrightarrow> float_lt ln_RI lngamma \<noteq> reversibility rxn) \<and>
         rxn \<notin> set im \<and> rxn \<notin> set pc \<and> rxn \<notin> set ub"
    using find_filter [OF assms(1)] assms(2) by simp
  with step show ?thesis by blast
qed

theorem incorrect_reversibility_iff_disagreement_witness:
  "find_incorrect_thermodynamic_reversibility example_api [LDH, ATPM, PPA, HYD, NADH, GLC] 3 =
     Inr ([ATPM], [NADH, GLC], [HYD], [PPA]) \<and>
   reversibility_index example_api ''C00002 -> C00008'' = Inr (Finite 10) \<and>
   (ATPM \<in> set [ATPM]) = (float_lt (Finite 10) 3 \<noteq> reversibility ATPM) \<and>
   ATPM \<notin> set [NADH, GLC] \<and> ATPM \<notin> set [HYD] \<and> ATPM \<notin> set [PPA] \<and>
   reversibility_index example_api ''C00022 <=> C00186'' = Inr (Finite 1) \<and>
   (LDH \<in> set [ATPM]) = (float_lt (Finite 1) 3 \<noteq> reversibility LDH) \<and>
   LDH \<notin> set [NADH, GLC] \<and> LDH \<notin> set [HYD] \<and> LDH \<notin> set [PPA]"
proof -
  have run: "find_incorrect_thermodynamic_reversibility example_api [LDH, ATPM, PPA, HYD, NADH, GLC] 3 =
     Inr ([ATPM], [NADH, GLC], [HYD], [PPA])"
    by code_simp
  have atpm: "ATPM \<in> set [LDH, ATPM, PPA, HYD, NADH, GLC]" and ldh: "LDH \<in> set [LDH, ATPM, PPA, HYD, NADH, GLC]"
    by simp_all
  have a1: "get_equilibrator_rxn_string example_api ATPM = Inr ''C00002 -> C00008''"
    and a2: "parse_formula example_api ''C00002 -> C00008'' = Inr ''C00002 -> C00008''"
    and a3: "check_full_reaction_balancing example_api ''C00002 -> C00008'' = Inr True"
    and a4: "reversibility_index example_api ''C00002 -> C00008'' = Inr (Finite 10)"
    by code_simp+
  have l1: "get_equilibrator_rxn_string example_api LDH = Inr ''C00022 <=> C00186''"
    and l2: "parse_formula example_api ''C00022 <=> C00186'' = Inr ''C00022 <=> C00186''"
    and l3: "check_full_reaction_balancing example_api ''C00022 <=> C00186'' = Inr True"
    and l4: "reversibility_index example_api ''C00022 <=> C00186'' = Inr (Finite 1)"
    by code_simp+
  note a = incorrect_reversibility_iff_disagreement [OF run atpm a1 a2 a3 a4]
  note l = incorrect_reversibility_iff_disagreement [OF run ldh l1 l2 l3 l4]
  from run a4 a l4 l show ?thesis by (intro conjI) blast+
qed

text \<open>
  Claim C5: the input is traversed once. When the function returns, every element of
  the four lists is a reaction of the input; the four lists together hold no
  reaction more often than the input does, so each step of the traversal appends to
  at most one list and at most once (and the lists together repeat nothing when the
  input repeats nothing); no reaction is in two of the lists; and each list keeps the
  order of the input.
\<close>

theorem single_pass_lists:
  assumes "find_incorrect_thermodynamic_reversibility api reactions lngamma = Inr (ir, im, pc, ub)"
  shows "set ir \<union> set im \<union> set pc \<union> set ub \<subseteq> set reactions \<and>
         mset ir + mset im + mset pc + mset ub \<subseteq># mset reactions \<and>
         set ir \<inter> set im = {} \<and> set ir \<inter> set pc = {} \<and> set ir \<inter> set ub = {} \<and>
         set im \<inter> set pc = {} \<and> set im \<inter> set ub = {} \<and> set pc \<inter> set ub = {} \<and>
         subseq ir reactions \<and> subseq im reactions \<and> subseq pc reactions \<and> subseq ub reactions \<and>
         (distinct reactions \<longrightarrow> distinct (ir @ im @ pc @ ub))"
proof -
  note f = find_filter [OF assms]
  have sub: "set ir \<union> set im \<union> set pc \<union> set ub \<subseteq> set reactions"
    unfolding f by auto
  have ord: "subseq ir reactions \<and> subseq im reactions \<and> subseq pc reactions \<and> subseq ub reactions"
    unfolding f by simp
  have dis: "set ir \<inter> set im = {} \<and> set ir \<inter> set pc = {} \<and> set ir \<inter> set ub = {} \<and>
         set im \<inter> set pc = {} \<and> set im \<inter> set ub = {} \<and> set pc \<inter> set ub = {}"
    unfolding f by (auto simp: goes_to_def)
  have "count (mset ir + mset im + mset pc + mset ub) r \<le> count (mset reactions) r" for r
    unfolding f using goes_to_exclusive [of api lngamma _ r]
    by (auto simp: mset_filter)
  then have once: "mset ir + mset im + mset pc + mset ub \<subseteq># mset reactions"
    by (rule mset_subset_eqI)
  have dist: "distinct (ir @ im @ pc @ ub)" if "distinct reactions"
    using that dis unfolding f by (auto simp: goes_to_def)
  from sub once dis ord dist show ?thesis by blast
qed

theorem single_pass_lists_witness:
  "find_incorrect_thermodynamic_reversibility example_api [LDH, ATPM, PPA, HYD, NADH, GLC] 3 =
     Inr ([ATPM], [NADH, GLC], [HYD], [PPA]) \<and>
   set [ATPM] \<union> set [NADH, GLC] \<union> set [HYD] \<union> set [PPA] \<subseteq> set [LDH, ATPM, PPA, HYD, NADH, GLC] \<and>
   mset [ATPM] + mset [NADH, GLC] + mset [HYD] + mset [PPA] \<subseteq># mset [LDH, ATPM, PPA, HYD, NADH, GLC] \<and>
   set [NADH, GLC] \<inter> set [PPA] = {} \<and>
   subseq [NADH, GLC] [LDH, ATPM, PPA, HYD, NADH, GLC] \<and>
   distinct [LDH, ATPM, PPA, HYD, NADH, GLC] \<and>
   distinct ([ATPM] @ [NADH, GLC] @ [HYD] @ [PPA])"
proof -
  have run: "find_incorrect_thermodynamic_reversibility example_api [LDH, ATPM, PPA, HYD, NADH, GLC] 3 =
     Inr ([ATPM], [NADH, GLC], [HYD], [PPA])"
    by code_simp
  have d: "distinct [LDH, ATPM, PPA, HYD, NADH, GLC]"
    by code_simp
  note w = single_pass_lists [OF run]
  from w d have "distinct ([ATPM] @ [NADH, GLC] @ [HYD] @ [PPA])" by blast
  with run w d show ?thesis by (intro conjI) blast+
qed



text \<open>
  Claim C9: for fixed behaviour of the external collaborators, two runs on the same
  reactions and the same \<open>lngamma\<close> return the same. A run is the function applied to
  the collaborators' behaviour, and the result depends on that behaviour only through
  the answers the run asks for: two APIs that give the same answer to every name
  looked up, to every mapped string parsed and to every balance check and
  reversibility index of a parsed reaction give the same result, the four lists or
  the exception raised.
\<close>

theorem result_determined_by_answers:
  assumes names: "\<forall>rxn \<in> set reactions. \<forall>met \<in> set (metabolites rxn). \<forall>n.
                    name met = Some n \<longrightarrow> match api1 n = match api2 n"
    and parses: "\<forall>rxn \<in> set reactions. \<forall>s. get_equilibrator_rxn_string api1 rxn = Inr s \<longrightarrow>
                    parse_formula api1 s = parse_formula api2 s"
    and methods: "\<forall>rxn \<in> set reactions. \<forall>s eq_rxn.
                    get_equilibrator_rxn_string api1 rxn = Inr s \<longrightarrow>
                    parse_formula api1 s = Inr eq_rxn \<longrightarrow>
                    check_full_reaction_balancing api1 eq_rxn =
                      check_full_reaction_balancing api2 eq_rxn \<and>
                    reversibility_index api1 eq_rxn = reversibility_index api2 eq_rxn"
  shows "find_incorrect_thermodynamic_reversibility api1 reactions lngamma =
         find_incorrect_thermodynamic_reversibility api2 reactions lngamma"
proof -
  have "outcome api1 lngamma rxn = outcome api2 lngamma rxn" if r: "rxn \<in> set reactions" for rxn
  proof -
    have s: "get_equilibrator_rxn_string api1 rxn = get_equilibrator_rxn_string api2 rxn"
      by (rule get_equilibrator_rxn_string_cong) (use names r in blast)
    have p: "parse_mapped api1 rxn = parse_mapped api2 rxn"
      using s parses r by (auto simp: parse_mapped_def split: sum.splits)
    show ?thesis
    proof (cases "parse_mapped api1 rxn")
      case (Inl e)
      moreover from Inl p have "parse_mapped api2 rxn = Inl e" by simp
      ultimately show ?thesis by (simp add: outcome_def)
    next
      case (Inr q)
      then obtain s' where "get_equilibrator_rxn_string api1 rxn = Inr s'"
        "parse_formula api1 s' = Inr q"
        by (auto simp: parse_mapped_Inr_iff)
      with methods r have "check_full_reaction_balancing api1 q = check_full_reaction_balancing api2 q"
        "reversibility_index api1 q = reversibility_index api2 q"
        by blast+
      moreover from Inr p have "parse_mapped api2 rxn = Inr q" by simp
      ultimately show ?thesis using Inr by (simp add: outcome_def split: sum.splits)
    qed
  qed
  then have "check_reactions api1 lngamma reactions b = check_reactions api2 lngamma reactions b" for b
    by (rule check_reactions_cong)
  then show ?thesis
    by (simp add: find_incorrect_thermodynamic_reversibility_def)
qed

theorem result_determined_by_answers_witness:
  "find_incorrect_thermodynamic_reversibility example_api [LDH, HYD, NADH] 3 =
   find_incorrect_thermodynamic_reversibility other_api [LDH, HYD, NADH] 3 \<and>
   match example_api ''Citrate'' \<noteq> match other_api ''Citrate'' \<and>
   reversibility_index example_api ''C00158 -> C00311'' \<noteq>
   reversibility_index other_api ''C00158 -> C00311''"
proof -
  have names: "\<forall>rxn \<in> set [LDH, HYD, NADH]. \<forall>met \<in> set (metabolites rxn). \<forall>n.
                 name met = Some n \<longrightarrow> match example_api n = match other_api n"
    by (simp add: LDH_def HYD_def NADH_def pyr_c_def lac_c_def h2o_c_def h_c_def nadh_c_def
          nad_c_def other_api_def)
  have parses: "\<forall>rxn \<in> set [LDH, HYD, NADH]. \<forall>s.
                 get_equilibrator_rxn_string example_api rxn = Inr s \<longrightarrow>
                 parse_formula example_api s = parse_formula other_api s"
    by (simp add: other_api_def)
  have l: "get_equilibrator_rxn_string example_api LDH = Inr ''C00022 <=> C00186''"
    and h: "get_equilibrator_rxn_string example_api HYD = Inr ''C00001 -> C00080''"
    and n: "get_equilibrator_rxn_string example_api NADH = Inr ''nadC00080 + C00080 -> C00003''"
    by code_simp+
  have p: "parse_formula example_api s = Inr q \<Longrightarrow> q = s" for s q
    by (simp add: example_api_def split: if_splits)
  have methods: "\<forall>rxn \<in> set [LDH, HYD, NADH]. \<forall>s eq_rxn.
                 get_equilibrator_rxn_string example_api rxn = Inr s \<longrightarrow>
                 parse_formula example_api s = Inr eq_rxn \<longrightarrow>
                 check_full_reaction_balancing example_api eq_rxn =
                   check_full_reaction_balancing other_api eq_rxn \<and>
                 reversibility_index example_api eq_rxn = reversibility_index other_api eq_rxn"
    using p by (auto simp: l h n other_api_def)
  have m: "match example_api ''Citrate'' \<noteq> match other_api ''Citrate''"
    by code_simp
  have r: "reversibility_index example_api ''C00158 -> C00311'' \<noteq>
           reversibility_index other_api ''C00158 -> C00311''"
    by code_simp
  from result_determined_by_answers [OF names parses methods, of 3] m r
  show ?thesis by (intro conjI)
qed

section \<open>Properties of \<open>smallest_compound_ID\<close>\<close>




section \<open>Properties of \<open>get_equilibrator_rxn_string\<close>\<close>




text \<open>
  Claim C10 says that a metabolite with no usable annotation and a falsy name is
  skipped with its identifier left in the returned string. NADH in the example has
  no annotation and an empty name, and it is passed over; but its identifier
  \<open>nadh_c\<close> ends in \<open>h_c\<close>, the identifier of the proton, and the replacement made for
  the proton rewrites it: \<open>nadh_c\<close> is not in the returned string.
\<close>

theorem skipped_metabolite_id_not_kept:
  "map_of (annotation nadh_c) ''kegg.compound'' = None \<and> name nadh_c = Some [] \<and>
   get_equilibrator_rxn_string example_api NADH = Inr ''nadC00080 + C00080 -> C00003''"
  by code_simp

section \<open>The inputs are not modified\<close>

text \<open>
  Claim C8: \<open>find_incorrect_thermodynamic_reversibility\<close> and
  \<open>get_equilibrator_rxn_string\<close> do not modify their inputs. On the store: every
  object that exists when the call is made (the input list of reactions, each
  reaction with its reaction string, metabolites and reversibility flag, each
  metabolite, each annotation list) is in the store after the call at the same
  reference and unchanged, whether the call returns or raises; what the call changes
  are objects it allocated itself (the four result lists and the sorted copies of
  the annotation lists). So the input list stands for the same reactions after the
  call as before, and a reaction for the same reaction. The call on the store
  returns what the function on values returns: the mapped string, a value, or
  references to four lists that stand for the four lists of reactions.
\<close>

theorem inputs_left_unchanged:
  "prefix st (snd (find_incorrect_thermodynamic_reversibility_s api reactions lngamma st)) \<and>
   prefix st (snd (get_equilibrator_rxn_string_s api rxn st)) \<and>
   (reaction_list_rel st reactions rxns \<longrightarrow>
      reaction_list_rel
        (snd (find_incorrect_thermodynamic_reversibility_s api reactions lngamma st))
        reactions rxns \<and>
      (case find_incorrect_thermodynamic_reversibility_s api reactions lngamma st of
         (Inl e, st') \<Rightarrow> find_incorrect_thermodynamic_reversibility api rxns lngamma = Inl e
       | (Inr (ir, im, pc, ub), st') \<Rightarrow>
           (\<exists>a b c d.
              find_incorrect_thermodynamic_reversibility api rxns lngamma = Inr (a, b, c, d) \<and>
              reaction_list_rel st' ir a \<and> reaction_list_rel st' im b \<and>
              reaction_list_rel st' pc c \<and> reaction_list_rel st' ub d))) \<and>
   (reaction_rel st rxn R \<longrightarrow>
      reaction_rel (snd (get_equilibrator_rxn_string_s api rxn st)) rxn R \<and>
      fst (get_equilibrator_rxn_string_s api rxn st) = get_equilibrator_rxn_string api R)"
proof -
  have f: "prefix st (snd (find_incorrect_thermodynamic_reversibility_s api reactions lngamma st))"
  proof -
    have p: "prefix st (st @ [RxnList [], RxnList [], RxnList [], RxnList []])"
      by simp
    have r: "fresh_refs st
               \<lparr>incorrect_reversibility_ref = Suc (Suc (length st)),
                incomplete_mapping_ref = length st,
                problematic_calculation_ref = Suc (length st),
                unbalanced_ref = Suc (Suc (Suc (length st)))\<rparr>"
      by (simp add: fresh_refs_def)
    show ?thesis
      using p
      by (auto simp: find_incorrect_thermodynamic_reversibility_s_def alloc_def
               dest: check_reactions_s_frameD [OF _ p r]
               split: option.splits py_object.splits prod.splits sum.splits)
  qed
  have g: "prefix st (snd (get_equilibrator_rxn_string_s api rxn st))"
    by (rule get_equilibrator_rxn_string_s_frame)
  have h: "reaction_list_rel
        (snd (find_incorrect_thermodynamic_reversibility_s api reactions lngamma st))
        reactions rxns \<and>
      (case find_incorrect_thermodynamic_reversibility_s api reactions lngamma st of
         (Inl e, st') \<Rightarrow> find_incorrect_thermodynamic_reversibility api rxns lngamma = Inl e
       | (Inr (ir, im, pc, ub), st') \<Rightarrow>
           (\<exists>a b c d.
              find_incorrect_thermodynamic_reversibility api rxns lngamma = Inr (a, b, c, d) \<and>
              reaction_list_rel st' ir a \<and> reaction_list_rel st' im b \<and>
              reaction_list_rel st' pc c \<and> reaction_list_rel st' ub d))"
    if rl: "reaction_list_rel st reactions rxns"
    using reaction_list_rel_prefix [OF f rl]
      find_incorrect_thermodynamic_reversibility_s_sim [OF rl, of api lngamma]
    by (rule conjI)
  have k: "reaction_rel (snd (get_equilibrator_rxn_string_s api rxn st)) rxn R \<and>
      fst (get_equilibrator_rxn_string_s api rxn st) = get_equilibrator_rxn_string api R"
    if r: "reaction_rel st rxn R"
    using reaction_rel_prefix [OF g r] get_equilibrator_rxn_string_s_sim [OF r, of api]
    by (rule conjI)
  from f g h k show ?thesis by blast
qed

theorem inputs_left_unchanged_witness:
  "find_incorrect_thermodynamic_reversibility_s example_api 7 3 example_store =
     (Inr (10, 8, 9, 11),
      example_store @
        [RxnList [], RxnList [], RxnList [6], RxnList [], StrList [''C00186'', ''C01432'']]) \<and>
   get_equilibrator_rxn_string_s example_api 3 example_store =
     (Inr ''C00022 <=> C00186'', example_store @ [StrList [''C00186'', ''C01432'']]) \<and>
   lookup example_store 1 = Some (StrList [''C01432'', ''D00111'', ''C00186'']) \<and>
   reaction_list_rel example_store 7 [LDH, ATPM] \<and>
   reaction_rel example_store 3 LDH \<and>
   prefix example_store
     (snd (find_incorrect_thermodynamic_reversibility_s example_api 7 3 example_store)) \<and>
   reaction_list_rel
     (snd (find_incorrect_thermodynamic_reversibility_s example_api 7 3 example_store))
     7 [LDH, ATPM] \<and>
   find_incorrect_thermodynamic_reversibility example_api [LDH, ATPM] 3 =
     Inr ([ATPM], [], [], []) \<and>
   prefix example_store (snd (get_equilibrator_rxn_string_s example_api 3 example_store)) \<and>
   fst (get_equilibrator_rxn_string_s example_api 3 example_store) =
     get_equilibrator_rxn_string example_api LDH"
proof -
  have f: "find_incorrect_thermodynamic_reversibility_s example_api 7 3 example_store =
     (Inr (10, 8, 9, 11),
      example_store @
        [RxnList [], RxnList [], RxnList [6], RxnList [], StrList [''C00186'', ''C01432'']])"
    by code_simp
  have g: "get_equilibrator_rxn_string_s example_api 3 example_store =
     (Inr ''C00022 <=> C00186'', example_store @ [StrList [''C00186'', ''C01432'']])"
    by code_simp
  have l: "lookup example_store 1 = Some (StrList [''C01432'', ''D00111'', ''C00186''])"
    by code_simp
  have rl: "reaction_list_rel example_store 7 [LDH, ATPM]"
    by code_simp
  have r: "reaction_rel example_store 3 LDH"
    by code_simp
  have v: "find_incorrect_thermodynamic_reversibility example_api [LDH, ATPM] 3 =
     Inr ([ATPM], [], [], [])"
    by code_simp
  note w = inputs_left_unchanged [of example_store example_api 7 3 3 "[LDH, ATPM]" LDH]
  from w have p1: "prefix example_store
     (snd (find_incorrect_thermodynamic_reversibility_s example_api 7 3 example_store))"
    by blast
  from w have p2: "prefix example_store
     (snd (get_equilibrator_rxn_string_s example_api 3 example_store))"
    by blast
  from w rl have k: "reaction_list_rel
     (snd (find_incorrect_thermodynamic_reversibility_s example_api 7 3 example_store))
     7 [LDH, ATPM]"
    by blast
  from w r have e: "fst (get_equilibrator_rxn_string_s example_api 3 example_store) =
     get_equilibrator_rxn_string example_api LDH"
    by blast
  from f g l rl r p1 k v p2 e show ?thesis by (intro conjI)
qed

end
